theory Spec2Isabelle
  imports Main "HOL-Library.Word"
begin

unbundle bit_operations_syntax

section \<open>Go values shared by the packages\<close>

text \<open>
  A Go \<^verbatim>\<open>string\<close> is a sequence of bytes, here a \<^typ>\<open>string\<close> (a list of 8-bit
  characters). A run-time panic of the Go code is a value: a function that can panic
  returns a sum \<^verbatim>\<open>go_panic + 'a\<close>, with \<^term>\<open>Inl\<close> for the panic.
\<close>

datatype go_panic =
    SliceBoundsOutOfRange int int   \<comment> \<open>\<^verbatim>\<open>s[lo:hi]\<close> with bounds out of range\<close>
  | IndexOutOfRange int nat         \<comment> \<open>\<^verbatim>\<open>xs[i]\<close> with length \<open>n\<close>\<close>
  | NilDereference                  \<comment> \<open>a method called on a nil interface value\<close>

type_synonym int64 = "64 word"

section \<open>abis/helpers.go: type-name normalisation and mapping parsing\<close>

subsection \<open>The functions of package \<^verbatim>\<open>strings\<close> the helpers call\<close>

definition HasPrefix :: "string \<Rightarrow> string \<Rightarrow> bool" where
  "HasPrefix s pre = (length pre \<le> length s \<and> take (length pre) s = pre)"

text \<open>\<^verbatim>\<open>strings.Index\<close>: the position of the first instance of \<open>substr\<close>, or -1.\<close>

fun Index_from :: "nat \<Rightarrow> string \<Rightarrow> string \<Rightarrow> int" where
  "Index_from i [] substr = (if substr = [] then int i else - 1)"
| "Index_from i (c # cs) substr =
     (if HasPrefix (c # cs) substr then int i else Index_from (Suc i) cs substr)"

definition Index :: "string \<Rightarrow> string \<Rightarrow> int" where
  "Index s substr = Index_from 0 s substr"

definition Contains :: "string \<Rightarrow> string \<Rightarrow> bool" where
  "Contains s substr = (0 \<le> Index s substr)"

text \<open>
  The slice expressions \<^verbatim>\<open>s[lo:hi]\<close> and \<^verbatim>\<open>s[lo:]\<close>. Go panics unless
  \<open>0 \<le> lo \<le> hi \<le> len(s)\<close>.
\<close>

definition slice :: "string \<Rightarrow> int \<Rightarrow> int \<Rightarrow> go_panic + string" where
  "slice s lo hi =
     (if 0 \<le> lo \<and> lo \<le> hi \<and> hi \<le> int (length s)
      then Inr (take (nat hi - nat lo) (drop (nat lo) s))
      else Inl (SliceBoundsOutOfRange lo hi))"

definition slice_from :: "string \<Rightarrow> int \<Rightarrow> go_panic + string" where
  "slice_from s lo =
     (if 0 \<le> lo \<and> lo \<le> int (length s)
      then Inr (drop (nat lo) s)
      else Inl (SliceBoundsOutOfRange lo (int (length s))))"

subsection \<open>The regular expression \<^verbatim>\<open>\[\d+\]\<close>\<close>

text \<open>
  \<^verbatim>\<open>regexp.MatchString\<close> reports whether the string contains any match of the
  pattern: the pattern has no anchor. \<open>match_array_here\<close> is a match that starts at
  the first byte (an opening bracket, one digit or more, a closing bracket);
  \<open>MatchString_array\<close> tries every start. The error result of \<^verbatim>\<open>MatchString\<close> is
  that of compiling the pattern, which compiles.
\<close>

definition is_digit :: "char \<Rightarrow> bool" where
  "is_digit c = (c \<in> set ''0123456789'')"

definition match_array_here :: "string \<Rightarrow> bool" where
  "match_array_here s =
     (case s of
        [] \<Rightarrow> False
      | c # r \<Rightarrow>
          c = CHR ''['' \<and> takeWhile is_digit r \<noteq> [] \<and> HasPrefix (dropWhile is_digit r) '']'')"

fun MatchString_array :: "string \<Rightarrow> bool" where
  "MatchString_array [] = False"
| "MatchString_array (c # cs) = (match_array_here (c # cs) \<or> MatchString_array cs)"

subsection \<open>\<^verbatim>\<open>normalizeTypeName\<close>\<close>

lemma HasPrefix_Cons: "HasPrefix s (c # p) = (\<exists>r. s = c # r \<and> HasPrefix r p)"
  by (cases s) (auto simp: HasPrefix_def)

lemma HasPrefix_Nil [simp]: "HasPrefix s []"
  by (simp add: HasPrefix_def)

lemma Index_from_char:
  "Index_from i s [c] =
     (if c \<in> set s then int (i + length (takeWhile (\<lambda>x. x \<noteq> c) s)) else - 1)"
  by (induction s arbitrary: i) (auto simp: HasPrefix_def)

lemma Index_char:
  "Index s [c] = (if c \<in> set s then int (length (takeWhile (\<lambda>x. x \<noteq> c) s)) else - 1)"
  by (simp add: Index_def Index_from_char)

lemma match_array_here_close: "match_array_here s \<Longrightarrow> CHR '']'' \<in> set s"
proof -
  assume m: "match_array_here s"
  then obtain r where s: "s = CHR ''['' # r" and h: "HasPrefix (dropWhile is_digit r) '']''"
    by (auto simp: match_array_here_def split: list.splits)
  from h obtain q where "dropWhile is_digit r = CHR '']'' # q"
    by (auto simp: HasPrefix_Cons)
  then have "CHR '']'' \<in> set (dropWhile is_digit r)" by simp
  then have "CHR '']'' \<in> set r" by (rule set_dropWhileD)
  with s show ?thesis by simp
qed

lemma MatchString_array_close: "MatchString_array s \<Longrightarrow> CHR '']'' \<in> set s"
  by (induction s) (auto dest: match_array_here_close)

lemma slice_from_shorter:
  "slice_from s lo = Inr t \<Longrightarrow> 1 \<le> lo \<Longrightarrow> length t < length s"
  by (auto simp: slice_from_def split: if_splits)

text \<open>
  The function recurses on the text after the first closing bracket (the array arm)
  or after the first two bytes (the slice arm). The three slice expressions of the
  source are the three places where it can panic.
\<close>

function normalizeTypeName :: "string \<Rightarrow> go_panic + string" where
  "normalizeTypeName typeName =
     (let isArray = MatchString_array typeName;
          isSlice = HasPrefix typeName ''[]''
      in if isArray then
           (case slice typeName (Index typeName ''['' + 1) (Index typeName '']'') of
              Inl p \<Rightarrow> Inl p
            | Inr numberPart \<Rightarrow>
               (case slice_from typeName (Index typeName '']'' + 1) of
                  Inl p \<Rightarrow> Inl p
                | Inr typePart \<Rightarrow>
                   (case normalizeTypeName typePart of
                      Inl p \<Rightarrow> Inl p
                    | Inr n \<Rightarrow> Inr (''['' @ numberPart @ '']'' @ n))))
         else if isSlice then
           (case slice_from typeName 2 of
              Inl p \<Rightarrow> Inl p
            | Inr typePart \<Rightarrow>
               (case normalizeTypeName typePart of
                  Inl p \<Rightarrow> Inl p
                | Inr n \<Rightarrow> Inr (''[]'' @ n)))
         else if HasPrefix typeName ''uint'' then
           (if typeName = ''uint'' then Inr ''uint256'' else Inr typeName)
         else if HasPrefix typeName ''int'' then
           (if typeName = ''int'' then Inr ''int256'' else Inr typeName)
         else if HasPrefix typeName ''bool'' then Inr typeName
         else if HasPrefix typeName ''bytes'' then Inr typeName
         else if typeName = ''string'' then Inr ''string''
         else if typeName = ''address'' then Inr ''address''
         else if typeName = ''addresspayable'' then Inr ''address''
         else if typeName = ''tuple'' then Inr ''tuple''
         else Inr typeName)"
  by pat_completeness auto
termination
proof (relation "measure length")
  fix typeName :: string and isArray isSlice numberPart typePart
  assume "isArray = MatchString_array typeName" and "isArray"
    and "slice_from typeName (Index typeName '']'' + 1) = Inr typePart"
  then show "(typePart, typeName) \<in> measure length"
    using MatchString_array_close [of typeName]
    by (auto simp: Index_char dest!: slice_from_shorter)
next
  fix typeName :: string and isArray isSlice typePart
  assume "slice_from typeName 2 = Inr typePart"
  then show "(typePart, typeName) \<in> measure length"
    by (auto dest!: slice_from_shorter)
qed simp

declare normalizeTypeName.simps [simp del]

text \<open>
  The input condition of rule 6 of the specification's normaliser ("otherwise: return
  the input unchanged"), in the specification's words: the name does not match the
  anchored pattern of rule 1, does not begin with \<open>[]\<close>, and is none of the
  elementary names of rules 3 to 5.
\<close>

definition spec_rule6_applies :: "string \<Rightarrow> bool" where
  "spec_rule6_applies t =
     (\<not> match_array_here t \<and> \<not> HasPrefix t ''[]'' \<and>
      \<not> HasPrefix t ''uint'' \<and> \<not> HasPrefix t ''int'' \<and>
      \<not> HasPrefix t ''bool'' \<and> \<not> HasPrefix t ''bytes'' \<and>
      t \<noteq> ''string'' \<and> t \<noteq> ''address'' \<and> t \<noteq> ''addresspayable'' \<and> t \<noteq> ''tuple'')"

subsection \<open>\<^verbatim>\<open>isMappingType\<close> and \<^verbatim>\<open>parseMappingType\<close>\<close>

definition isMappingType :: "string \<Rightarrow> bool" where
  "isMappingType name = Contains name ''mapping''"

text \<open>
  The regular expression \<^verbatim>\<open>mapping\((\w+)\s*=>\s*(.+)\)\<close> under Go's leftmost-first
  matching. \<^verbatim>\<open>\w\<close> is \<open>[0-9A-Za-z_]\<close>, \<^verbatim>\<open>\s\<close> is tab, newline, form feed, carriage
  return or space, and \<^verbatim>\<open>.\<close> is any character but newline.

  At a given start the match is found as a backtracking matcher finds it:
  \<^item> \<^verbatim>\<open>(\w+)\<close> takes the longest run of word characters: what follows it in the
    pattern begins with a space or \<open>=\<close>, so no shorter run can be continued;
  \<^item> the first \<^verbatim>\<open>\s*\<close> takes every space, for the same reason;
  \<^item> the second \<^verbatim>\<open>\s*\<close> takes as many spaces as it can (\<open>match_spaces_value\<close>
    tries the longest run first, then one space fewer, down to none), because \<^verbatim>\<open>.\<close>
    matches a space too;
  \<^item> \<^verbatim>\<open>(.+)\)\<close> takes the characters up to the last closing parenthesis of the line,
    at least one (\<open>match_value\<close>).
  \<^verbatim>\<open>FindStringSubmatch\<close> returns the match with the leftmost start, or nil. The model
  returns the two groups; the source reads nothing else of the result.
\<close>

definition is_word :: "char \<Rightarrow> bool" where
  "is_word c =
     (c \<in> set ''0123456789ABCDEFGHIJKLMNOPQRSTUVWXYZ_abcdefghijklmnopqrstuvwxyz'')"

definition is_space :: "char \<Rightarrow> bool" where
  "is_space c = (c \<in> set [CHR 0x09, CHR 0x0A, CHR 0x0C, CHR 0x0D, CHR '' ''])"

definition match_value :: "string \<Rightarrow> string option" where
  "match_value s =
     (let line = takeWhile (\<lambda>c. c \<noteq> CHR 0x0A) s;
          closing = filter (\<lambda>i. line ! i = CHR '')'') [1..<length line]
      in if closing = [] then None else Some (take (last closing) line))"

fun match_spaces_value :: "nat \<Rightarrow> string \<Rightarrow> string option" where
  "match_spaces_value 0 s = match_value s"
| "match_spaces_value (Suc k) s =
     (case match_value (drop (Suc k) s) of
        Some v \<Rightarrow> Some v
      | None \<Rightarrow> match_spaces_value k s)"

definition strip_prefix :: "string \<Rightarrow> string \<Rightarrow> string option" where
  "strip_prefix pre s = (if HasPrefix s pre then Some (drop (length pre) s) else None)"

definition match_mapping_here :: "string \<Rightarrow> (string \<times> string) option" where
  "match_mapping_here s =
     (case strip_prefix ''mapping('' s of
        None \<Rightarrow> None
      | Some r1 \<Rightarrow>
          if takeWhile is_word r1 = [] then None
          else
            (case strip_prefix ''=>'' (dropWhile is_space (dropWhile is_word r1)) of
               None \<Rightarrow> None
             | Some r2 \<Rightarrow>
                 (case match_spaces_value (length (takeWhile is_space r2)) r2 of
                    None \<Rightarrow> None
                  | Some v \<Rightarrow> Some (takeWhile is_word r1, v))))"

fun FindStringSubmatch_mapping :: "string \<Rightarrow> (string \<times> string) option" where
  "FindStringSubmatch_mapping [] = None"
| "FindStringSubmatch_mapping (c # cs) =
     (case match_mapping_here (c # cs) of
        Some m \<Rightarrow> Some m
      | None \<Rightarrow> FindStringSubmatch_mapping cs)"

lemma match_value_shorter: "match_value s = Some v \<Longrightarrow> length v < length s"
proof -
  assume m: "match_value s = Some v"
  define line where "line = takeWhile (\<lambda>c. c \<noteq> CHR 0x0A) s"
  define closing where "closing = filter (\<lambda>i. line ! i = CHR '')'') [1..<length line]"
  from m have ne: "closing \<noteq> []" and v: "v = take (last closing) line"
    by (auto simp: match_value_def Let_def line_def closing_def split: if_splits)
  from ne have "last closing \<in> set closing" by simp
  then have "last closing < length line" by (simp add: closing_def)
  moreover have "length line \<le> length s"
    unfolding line_def by (rule length_takeWhile_le)
  ultimately show ?thesis using v by simp
qed

lemma match_spaces_value_shorter: "match_spaces_value k s = Some v \<Longrightarrow> length v < length s"
proof (induction k)
  case 0
  then show ?case by (simp add: match_value_shorter)
next
  case (Suc k)
  show ?case
  proof (cases "match_value (drop (Suc k) s)")
    case None
    with Suc show ?thesis by simp
  next
    case (Some w)
    with Suc.prems have "w = v" by simp
    with Some have "match_value (drop (Suc k) s) = Some v" by simp
    then have "length v < length (drop (Suc k) s)" by (rule match_value_shorter)
    then show ?thesis by simp
  qed
qed

lemma strip_prefix_length: "strip_prefix pre s = Some r \<Longrightarrow> length r \<le> length s"
  by (auto simp: strip_prefix_def split: if_splits)

lemma match_mapping_here_shorter:
  assumes "match_mapping_here s = Some (k, v)"
  shows "length v < length s"
proof -
  from assms obtain r1 r2 where r1: "strip_prefix ''mapping('' s = Some r1"
    and r2: "strip_prefix ''=>'' (dropWhile is_space (dropWhile is_word r1)) = Some r2"
    and v: "match_spaces_value (length (takeWhile is_space r2)) r2 = Some v"
    by (auto simp: match_mapping_here_def split: option.splits if_splits)
  have "length v < length r2" using v by (rule match_spaces_value_shorter)
  also have "length r2 \<le> length (dropWhile is_space (dropWhile is_word r1))"
    using r2 by (rule strip_prefix_length)
  also have "\<dots> \<le> length (dropWhile is_word r1)" by (rule length_dropWhile_le)
  also have "\<dots> \<le> length r1" by (rule length_dropWhile_le)
  also have "\<dots> \<le> length s" using r1 by (rule strip_prefix_length)
  finally show ?thesis .
qed

lemma FindStringSubmatch_mapping_shorter:
  "FindStringSubmatch_mapping s = Some (k, v) \<Longrightarrow> length v < length s"
proof (induction s)
  case Nil
  then show ?case by simp
next
  case (Cons c cs)
  show ?case
  proof (cases "match_mapping_here (c # cs)")
    case None
    with Cons show ?thesis by simp
  next
    case (Some m)
    with Cons.prems have "match_mapping_here (c # cs) = Some (k, v)" by simp
    then show ?thesis by (rule match_mapping_here_shorter)
  qed
qed

text \<open>
  \<^verbatim>\<open>len(matches) < 3\<close> holds exactly when there is no match. The flag of the nested
  call is discarded, as in the source.
\<close>

function parseMappingType :: "string \<Rightarrow> bool \<times> string list \<times> string list" where
  "parseMappingType abi =
     (case FindStringSubmatch_mapping abi of
        None \<Rightarrow> (False, [], [])
      | Some (key, val) \<Rightarrow>
          if isMappingType val then
            (case parseMappingType val of
               (ok, nestedInput, nestedOutput) \<Rightarrow> (True, [key] @ nestedInput, nestedOutput))
          else (True, [key], [val]))"
  by pat_completeness auto
termination
  by (relation "measure length") (auto dest: FindStringSubmatch_mapping_shorter)

declare parseMappingType.simps [simp del]

text \<open>
  The texts the flattening property speaks of. \<open>nested_mapping [K1, ..., Kn] V\<close> is
  \<open>mapping(K1 => mapping(... mapping(Kn => V)...))\<close>. A key is a non-empty word, as
  the pattern's first group demands. A plain value is a non-empty text on one line that
  does not begin with a space and is not a mapping by \<^verbatim>\<open>isMappingType\<close>.
\<close>

fun nested_mapping :: "string list \<Rightarrow> string \<Rightarrow> string" where
  "nested_mapping [] V = V"
| "nested_mapping (K # Ks) V = ''mapping('' @ K @ '' => '' @ nested_mapping Ks V @ '')''"

definition is_key :: "string \<Rightarrow> bool" where
  "is_key K = (K \<noteq> [] \<and> list_all is_word K)"

definition is_plain_value :: "string \<Rightarrow> bool" where
  "is_plain_value V =
     (V \<noteq> [] \<and> CHR 0x0A \<notin> set V \<and> \<not> is_space (hd V) \<and> \<not> isMappingType V)"

section \<open>Package ast: declarations the three node files share\<close>

text \<open>
  \<^verbatim>\<open>ast_pb.NodeType\<close> is an enumeration of the protocol-buffer package, which the
  sources only import: its zero value, the constants the sources name, and the rest.
\<close>

datatype NodeType =
    NT_DEFAULT
  | CONTRACT_DEFINITION
  | KIND_CONTRACT
  | FUNCTION_DEFINITION
  | ENUM_DEFINITION
  | ENUM_VALUE
  | BIT_XOR_OPERATION
  | OtherNodeType nat

record TypeDescription =
  TypeIdentifier :: string
  TypeString :: string

record SrcNode =
  Src_Id :: int64
  Line :: int64
  Column :: int64
  Start :: int64
  End :: int64
  Length :: int64
  ParentIndex :: int64

text \<open>The zero value of \<^verbatim>\<open>SrcNode\<close>, which a composite literal leaves in an omitted field.\<close>

definition zero_SrcNode :: SrcNode where
  "zero_SrcNode =
     \<lparr>Src_Id = 0, Line = 0, Column = 0, Start = 0, End = 0, Length = 0, ParentIndex = 0\<rparr>"

text \<open>
  What the sources read of a parse context: the start and stop tokens with their line,
  column and byte offsets. The parser returns Go \<^verbatim>\<open>int\<close>s, 64 bits wide on the
  platforms the repository targets, so that the conversion \<^verbatim>\<open>int64(...)\<close> changes
  nothing and the subtractions wrap at 64 bits.
\<close>

record Token =
  tok_Line :: int64
  tok_Column :: int64
  tok_Start :: int64
  tok_Stop :: int64

text \<open>
  A value of the interface \<^verbatim>\<open>Node[NodeType]\<close>, seen through the methods the sources
  call on it: \<^verbatim>\<open>GetId\<close>, \<^verbatim>\<open>GetType\<close> and \<^verbatim>\<open>GetTypeDescription\<close> (a pointer, nil for some
  node kinds). An interface parameter that the sources test against nil is a
  \<^verbatim>\<open>Node option\<close>.
\<close>

record Node =
  Node_Id :: int64
  Node_Type :: NodeType
  Node_TypeDescription :: "TypeDescription option"

text \<open>
  \<^verbatim>\<open>Parameter\<close> is declared in another file of the package; these are the fields the
  composite literal in \<^verbatim>\<open>EnumDefinition.Parse\<close> sets.
\<close>

record Parameter =
  Parameter_Id :: int64
  Parameter_Src :: SrcNode
  Parameter_Name :: string
  Parameter_NodeType :: NodeType
  Parameter_TypeDescription :: "TypeDescription option"

record EnumDefinition =
  SourceUnitName :: string
  Enum_Id :: int64
  Enum_NodeType :: NodeType
  Enum_Src :: SrcNode
  Enum_Name :: string
  CanonicalName :: string
  Enum_TypeDescription :: "TypeDescription option"
  Members :: "Parameter list"

text \<open>
  Every node struct embeds a pointer to the one \<^verbatim>\<open>ASTBuilder\<close> of the build. The model
  passes the builder's state in and out of each function that uses it: the id counter,
  and the list \<^verbatim>\<open>currentEnums\<close>, which \<^verbatim>\<open>EnumDefinition.Parse\<close> appends to.
\<close>

record ASTBuilder =
  nextID :: int64
  currentEnums :: "EnumDefinition list"

text \<open>
  Modelled from the spec: \<^verbatim>\<open>ASTBuilder.GetNextID\<close> is declared in a file of the package
  that is not among the sources. The specification: "a single next-id generator; every
  node and every src receives a fresh id", "a monotonically increasing 64-bit integer".
  No property below depends on the values it returns.
\<close>

definition GetNextID :: "ASTBuilder \<Rightarrow> int64 \<times> ASTBuilder" where
  "GetNextID b = (nextID b, b\<lparr>nextID := nextID b + 1\<rparr>)"

subsection \<open>\<^verbatim>\<open>fmt.Sprintf\<close> with the verbs the sources use\<close>




section \<open>The contract node (\<^verbatim>\<open>Contract\<close> and \<^verbatim>\<open>Contract.Parse\<close>)\<close>

text \<open>
  In the sources the contract node follows the helpers in \<^verbatim>\<open>abis/helpers.go\<close>, as a
  file of package \<^verbatim>\<open>ast\<close>.
\<close>

text \<open>
  Modelled from the spec: the struct \<^verbatim>\<open>BaseContract\<close> is declared in a file that is not
  among the sources. The specification's data model gives it a \<open>base_name\<close> and a list
  of modifier arguments; \<^verbatim>\<open>Contract.Parse\<close> reads neither.
\<close>

record BaseContract =
  BaseName :: string
  ModifierArgs :: "string list"

record Contract =
  Contract_Id :: int64
  Contract_Name :: string
  Contract_NodeType :: NodeType
  Contract_Src :: SrcNode
  Abstract :: bool
  Kind :: NodeType
  FullyImplemented :: bool
  Nodes :: "Node list"
  LinearizedBaseContracts :: "int64 list"
  BaseContracts :: "BaseContract list"
  ContractDependencies :: "int64 list"

text \<open>The contract as a value of the node interface (its type description is nil).\<close>

definition Contract_as_Node :: "Contract \<Rightarrow> Node" where
  "Contract_as_Node c =
     \<lparr>Node_Id = Contract_Id c, Node_Type = Contract_NodeType c, Node_TypeDescription = None\<rparr>"

text \<open>
  \<^verbatim>\<open>SourceUnit\<close>, \<^verbatim>\<open>Symbol\<close>, \<^verbatim>\<open>RootNode\<close> and \<^verbatim>\<open>BodyNode\<close> are declared in files that are
  not among the sources. The records hold the fields that \<^verbatim>\<open>Contract.Parse\<close> and
  \<^verbatim>\<open>EnumDefinition.Parse\<close> read or write; \<^verbatim>\<open>unit.GetName()\<close> is the field \<open>Unit_Name\<close>.
\<close>

record Symbol =
  Symbol_Id :: int64
  Symbol_Name :: string
  Symbol_AbsolutePath :: string

record SourceUnit =
  Unit_Id :: int64
  Unit_Name :: string
  AbsolutePath :: string
  Unit_Src :: SrcNode
  ExportedSymbols :: "Symbol list"
  Unit_Nodes :: "Node list"
  Unit_BaseContracts :: "BaseContract list"
  Unit_Contract :: "Contract option"

record RootNode =
  Root_Id :: int64

record BodyNode =
  BodyNode_NodeType :: NodeType
  Implemented :: bool

text \<open>
  The parse contexts. \<open>'inh\<close> is the inheritance specifier list and \<open>'e\<close> the
  content of a body element: \<^verbatim>\<open>Contract.Parse\<close> hands both on without looking inside.
  Of a body element it reads \<^verbatim>\<open>IsEmpty()\<close> only.
\<close>

record 'e ContractBodyElementContext =
  IsEmpty :: bool
  Element :: 'e

record ('inh, 'e) ContractDefinitionContext =
  ctx_Start :: Token
  ctx_Stop :: Token
  Identifier :: string
  InheritanceSpecifierList :: 'inh
  AllContractBodyElement :: "'e ContractBodyElementContext list"

text \<open>
  The functions \<^verbatim>\<open>Contract.Parse\<close> calls that are declared in files that are not among
  the sources. They are parameters of the model: each takes the builder's state and
  returns its result with the builder's state after it. What else they may write through
  the pointers they receive (the unit, the contract node) is not in the sources and is
  not modelled. \<open>'u\<close> is the source unit's parse context.
\<close>

record ('u, 'inh, 'e) Collaborators =
  SetAbsolutePathFromSources :: "SourceUnit \<Rightarrow> SourceUnit"
  parsePragmasForSourceUnit ::
    "ASTBuilder \<Rightarrow> 'u \<Rightarrow> SourceUnit \<Rightarrow> ('inh, 'e) ContractDefinitionContext
      \<Rightarrow> Node list \<times> ASTBuilder"
  parseImportPathsForSourceUnit ::
    "ASTBuilder \<Rightarrow> 'u \<Rightarrow> SourceUnit \<Rightarrow> ('inh, 'e) ContractDefinitionContext
      \<Rightarrow> Node list \<times> ASTBuilder"
  parseInheritanceFromCtx ::
    "ASTBuilder \<Rightarrow> SourceUnit \<Rightarrow> Contract \<Rightarrow> 'inh \<Rightarrow> BaseContract list \<times> ASTBuilder"
  NewBodyNode :: "ASTBuilder \<Rightarrow> BodyNode \<times> ASTBuilder"
  ParseDefinitions ::
    "ASTBuilder \<Rightarrow> BodyNode \<Rightarrow> SourceUnit \<Rightarrow> Contract \<Rightarrow> 'e ContractBodyElementContext
      \<Rightarrow> (Node option \<times> BodyNode) \<times> ASTBuilder"

text \<open>
  The loop over the imports: each import's id goes to the linearized base contracts and
  to the contract dependencies.
\<close>

fun append_imports :: "Contract \<Rightarrow> Node list \<Rightarrow> Contract" where
  "append_imports c [] = c"
| "append_imports c (nodeImport # rest) =
     append_imports
       (c\<lparr>LinearizedBaseContracts := LinearizedBaseContracts c @ [Node_Id nodeImport],
          ContractDependencies := ContractDependencies c @ [Node_Id nodeImport]\<rparr>)
       rest"

text \<open>
  One turn of the loop over the body elements. An empty element clears the flag and is
  skipped (\<^verbatim>\<open>continue\<close>). Otherwise the element is parsed; a child that is not nil is
  appended, and the flag is cleared when the body node is a function definition that is
  not implemented; a nil child clears the flag.
\<close>

definition parse_body_element ::
  "('u, 'inh, 'e) Collaborators \<Rightarrow> SourceUnit \<Rightarrow> Contract \<Rightarrow> ASTBuilder
    \<Rightarrow> 'e ContractBodyElementContext \<Rightarrow> Contract \<times> ASTBuilder" where
  "parse_body_element P unit contractNode l bodyElement =
     (if IsEmpty bodyElement then (contractNode\<lparr>FullyImplemented := False\<rparr>, l)
      else
        (case NewBodyNode P l of
           (bodyNode0, l1) \<Rightarrow>
             (case ParseDefinitions P l1 bodyNode0 unit contractNode bodyElement of
                ((childNode, bodyNode), l2) \<Rightarrow>
                  (case childNode of
                     Some child \<Rightarrow>
                       (if BodyNode_NodeType bodyNode = FUNCTION_DEFINITION
                           \<and> \<not> Implemented bodyNode
                        then contractNode\<lparr>Nodes := Nodes contractNode @ [child],
                                           FullyImplemented := False\<rparr>
                        else contractNode\<lparr>Nodes := Nodes contractNode @ [child]\<rparr>,
                        l2)
                   | None \<Rightarrow> (contractNode\<lparr>FullyImplemented := False\<rparr>, l2)))))"

fun parse_body_elements ::
  "('u, 'inh, 'e) Collaborators \<Rightarrow> SourceUnit \<Rightarrow> Contract \<Rightarrow> ASTBuilder
    \<Rightarrow> 'e ContractBodyElementContext list \<Rightarrow> Contract \<times> ASTBuilder" where
  "parse_body_elements P unit contractNode l [] = (contractNode, l)"
| "parse_body_elements P unit contractNode l (bodyElement # rest) =
     (case parse_body_element P unit contractNode l bodyElement of
        (contractNode', l') \<Rightarrow> parse_body_elements P unit contractNode' l' rest)"

text \<open>
  \<^verbatim>\<open>Contract.Parse\<close> up to the loop over the body elements: the source unit, the
  contract node and the builder as the loop finds them.
\<close>

definition Contract_Parse_head ::
  "('u, 'inh, 'e) Collaborators \<Rightarrow> ASTBuilder \<Rightarrow> 'u \<Rightarrow> ('inh, 'e) ContractDefinitionContext
    \<Rightarrow> RootNode \<Rightarrow> SourceUnit \<Rightarrow> SourceUnit \<times> Contract \<times> ASTBuilder" where
  "Contract_Parse_head P l unitCtx ctx rootNode unit =
     (case GetNextID l of (srcId, l1) \<Rightarrow>
      let unit1 = unit\<lparr>Unit_Src :=
                    \<lparr>Src_Id = srcId,
                     Line = tok_Line (ctx_Start ctx),
                     Column = tok_Column (ctx_Start ctx),
                     Start = tok_Start (ctx_Start ctx),
                     End = tok_Stop (ctx_Stop ctx),
                     Length = tok_Stop (ctx_Stop ctx) - tok_Start (ctx_Start ctx) + 1,
                     ParentIndex = Root_Id rootNode\<rparr>\<rparr>;
          unit2 = SetAbsolutePathFromSources P unit1;
          unit3 = unit2\<lparr>ExportedSymbols := ExportedSymbols unit2 @
                    [\<lparr>Symbol_Id = Unit_Id unit2, Symbol_Name = Unit_Name unit2,
                      Symbol_AbsolutePath = AbsolutePath unit2\<rparr>]\<rparr>
      in
      case parsePragmasForSourceUnit P l1 unitCtx unit3 ctx of (pragmas, l2) \<Rightarrow>
      let unit4 = unit3\<lparr>Unit_Nodes := Unit_Nodes unit3 @ pragmas\<rparr> in
      case parseImportPathsForSourceUnit P l2 unitCtx unit4 ctx of (nodeImports, l3) \<Rightarrow>
      let unit5 = unit4\<lparr>Unit_Nodes := Unit_Nodes unit4 @ nodeImports\<rparr> in
      case GetNextID l3 of (contractId, l4) \<Rightarrow>
      let contractNode0 =
            \<lparr>Contract_Id = contractId,
             Contract_Name = Identifier ctx,
             Contract_NodeType = CONTRACT_DEFINITION,
             Contract_Src =
               \<lparr>Src_Id = 0,
                Line = tok_Line (ctx_Start ctx),
                Column = tok_Column (ctx_Start ctx),
                Start = tok_Start (ctx_Start ctx),
                End = tok_Stop (ctx_Stop ctx),
                Length = tok_Stop (ctx_Stop ctx) - tok_Start (ctx_Start ctx) + 1,
                ParentIndex = Unit_Id unit5\<rparr>,
             Abstract = False,
             Kind = KIND_CONTRACT,
             FullyImplemented = True,
             Nodes = [],
             LinearizedBaseContracts = [],
             BaseContracts = [],
             ContractDependencies = []\<rparr>
      in
      case parseInheritanceFromCtx P l4 unit5 contractNode0 (InheritanceSpecifierList ctx) of
        (bases, l5) \<Rightarrow>
      let contractNode1 = contractNode0\<lparr>BaseContracts := BaseContracts contractNode0 @ bases\<rparr>;
          unit6 = unit5\<lparr>Unit_BaseContracts := BaseContracts contractNode1\<rparr>;
          contractNode2 = contractNode1\<lparr>LinearizedBaseContracts :=
                            LinearizedBaseContracts contractNode1 @ [Contract_Id contractNode1]\<rparr>;
          contractNode3 = append_imports contractNode2 nodeImports
      in (unit6, contractNode3, l5))"

definition Contract_Parse ::
  "('u, 'inh, 'e) Collaborators \<Rightarrow> ASTBuilder \<Rightarrow> 'u \<Rightarrow> ('inh, 'e) ContractDefinitionContext
    \<Rightarrow> RootNode \<Rightarrow> SourceUnit \<Rightarrow> SourceUnit \<times> ASTBuilder" where
  "Contract_Parse P l unitCtx ctx rootNode unit =
     (case Contract_Parse_head P l unitCtx ctx rootNode unit of
        (unit6, contractNode3, l5) \<Rightarrow>
      case parse_body_elements P unit6 contractNode3 l5 (AllContractBodyElement ctx) of
        (contractNode4, l6) \<Rightarrow>
      let unit7 = unit6\<lparr>Unit_Nodes := Unit_Nodes unit6 @ [Contract_as_Node contractNode4]\<rparr>;
          unit8 = unit7\<lparr>Unit_Contract := Some contractNode4\<rparr>
      in (unit8, l6))"

subsection \<open>What the two absent parsers returned\<close>

text \<open>
  The properties of the linearized base contracts and of the base contracts speak of
  two values inside \<^verbatim>\<open>Contract.Parse\<close>: the import nodes that
  \<^verbatim>\<open>parseImportPathsForSourceUnit\<close> returned (\<^verbatim>\<open>nodeImports\<close>), and the list that
  \<^verbatim>\<open>parseInheritanceFromCtx\<close> returned. The two functions below run \<^verbatim>\<open>Contract.Parse\<close>
  up to each call, with the same arguments and the same state of the builder, and
  return what the call returns.
\<close>

definition Contract_Parse_imports ::
  "('u, 'inh, 'e) Collaborators \<Rightarrow> ASTBuilder \<Rightarrow> 'u \<Rightarrow> ('inh, 'e) ContractDefinitionContext
    \<Rightarrow> RootNode \<Rightarrow> SourceUnit \<Rightarrow> SourceUnit \<times> Node list \<times> ASTBuilder" where
  "Contract_Parse_imports P l unitCtx ctx rootNode unit =
     (case GetNextID l of (srcId, l1) \<Rightarrow>
      let unit1 = unit\<lparr>Unit_Src :=
                    \<lparr>Src_Id = srcId,
                     Line = tok_Line (ctx_Start ctx),
                     Column = tok_Column (ctx_Start ctx),
                     Start = tok_Start (ctx_Start ctx),
                     End = tok_Stop (ctx_Stop ctx),
                     Length = tok_Stop (ctx_Stop ctx) - tok_Start (ctx_Start ctx) + 1,
                     ParentIndex = Root_Id rootNode\<rparr>\<rparr>;
          unit2 = SetAbsolutePathFromSources P unit1;
          unit3 = unit2\<lparr>ExportedSymbols := ExportedSymbols unit2 @
                    [\<lparr>Symbol_Id = Unit_Id unit2, Symbol_Name = Unit_Name unit2,
                      Symbol_AbsolutePath = AbsolutePath unit2\<rparr>]\<rparr>
      in
      case parsePragmasForSourceUnit P l1 unitCtx unit3 ctx of (pragmas, l2) \<Rightarrow>
      let unit4 = unit3\<lparr>Unit_Nodes := Unit_Nodes unit3 @ pragmas\<rparr> in
      case parseImportPathsForSourceUnit P l2 unitCtx unit4 ctx of (nodeImports, l3) \<Rightarrow>
      (unit4\<lparr>Unit_Nodes := Unit_Nodes unit4 @ nodeImports\<rparr>, nodeImports, l3))"

definition Contract_Parse_nodeImports ::
  "('u, 'inh, 'e) Collaborators \<Rightarrow> ASTBuilder \<Rightarrow> 'u \<Rightarrow> ('inh, 'e) ContractDefinitionContext
    \<Rightarrow> RootNode \<Rightarrow> SourceUnit \<Rightarrow> Node list" where
  "Contract_Parse_nodeImports P l unitCtx ctx rootNode unit =
     fst (snd (Contract_Parse_imports P l unitCtx ctx rootNode unit))"

definition Contract_Parse_inheritance ::
  "('u, 'inh, 'e) Collaborators \<Rightarrow> ASTBuilder \<Rightarrow> 'u \<Rightarrow> ('inh, 'e) ContractDefinitionContext
    \<Rightarrow> RootNode \<Rightarrow> SourceUnit \<Rightarrow> BaseContract list" where
  "Contract_Parse_inheritance P l unitCtx ctx rootNode unit =
     (case Contract_Parse_imports P l unitCtx ctx rootNode unit of
        (unit5, imports, l3) \<Rightarrow>
      case GetNextID l3 of (contractId, l4) \<Rightarrow>
      let contractNode0 =
            \<lparr>Contract_Id = contractId,
             Contract_Name = Identifier ctx,
             Contract_NodeType = CONTRACT_DEFINITION,
             Contract_Src =
               \<lparr>Src_Id = 0,
                Line = tok_Line (ctx_Start ctx),
                Column = tok_Column (ctx_Start ctx),
                Start = tok_Start (ctx_Start ctx),
                End = tok_Stop (ctx_Stop ctx),
                Length = tok_Stop (ctx_Stop ctx) - tok_Start (ctx_Start ctx) + 1,
                ParentIndex = Unit_Id unit5\<rparr>,
             Abstract = False,
             Kind = KIND_CONTRACT,
             FullyImplemented = True,
             Nodes = [],
             LinearizedBaseContracts = [],
             BaseContracts = [],
             ContractDependencies = []\<rparr>
      in fst (parseInheritanceFromCtx P l4 unit5 contractNode0 (InheritanceSpecifierList ctx)))"

subsection \<open>What happened to each body element\<close>

text \<open>
  The properties of \<^verbatim>\<open>fully_implemented\<close> speak of the body elements that were empty
  and of the function definitions that were parsed. \<open>body_outcomes\<close> lists, for each
  body element in turn, what the loop met: an empty element, a nil child, or a child
  together with the body node's type and its \<^verbatim>\<open>Implemented\<close> field.
\<close>

datatype body_outcome = EmptyElement | NilChild | ParsedChild NodeType bool

definition element_outcome ::
  "('u, 'inh, 'e) Collaborators \<Rightarrow> SourceUnit \<Rightarrow> Contract \<Rightarrow> ASTBuilder
    \<Rightarrow> 'e ContractBodyElementContext \<Rightarrow> body_outcome" where
  "element_outcome P unit contractNode l bodyElement =
     (if IsEmpty bodyElement then EmptyElement
      else
        (case NewBodyNode P l of
           (bodyNode0, l1) \<Rightarrow>
             (case ParseDefinitions P l1 bodyNode0 unit contractNode bodyElement of
                ((childNode, bodyNode), l2) \<Rightarrow>
                  (case childNode of
                     Some child \<Rightarrow> ParsedChild (BodyNode_NodeType bodyNode) (Implemented bodyNode)
                   | None \<Rightarrow> NilChild))))"

fun body_outcomes ::
  "('u, 'inh, 'e) Collaborators \<Rightarrow> SourceUnit \<Rightarrow> Contract \<Rightarrow> ASTBuilder
    \<Rightarrow> 'e ContractBodyElementContext list \<Rightarrow> body_outcome list" where
  "body_outcomes P unit contractNode l [] = []"
| "body_outcomes P unit contractNode l (bodyElement # rest) =
     element_outcome P unit contractNode l bodyElement #
     (case parse_body_element P unit contractNode l bodyElement of
        (contractNode', l') \<Rightarrow> body_outcomes P unit contractNode' l' rest)"

definition Contract_Parse_outcomes ::
  "('u, 'inh, 'e) Collaborators \<Rightarrow> ASTBuilder \<Rightarrow> 'u \<Rightarrow> ('inh, 'e) ContractDefinitionContext
    \<Rightarrow> RootNode \<Rightarrow> SourceUnit \<Rightarrow> body_outcome list" where
  "Contract_Parse_outcomes P l unitCtx ctx rootNode unit =
     (case Contract_Parse_head P l unitCtx ctx rootNode unit of
        (unit6, contractNode3, l5) \<Rightarrow>
          body_outcomes P unit6 contractNode3 l5 (AllContractBodyElement ctx))"

text \<open>
  The flag as the claim states it: no body element was empty, and every parsed function
  definition is implemented.
\<close>

fun claimed_keeps_flag :: "body_outcome \<Rightarrow> bool" where
  "claimed_keeps_flag EmptyElement = False"
| "claimed_keeps_flag NilChild = True"
| "claimed_keeps_flag (ParsedChild t implemented) =
     (if t = FUNCTION_DEFINITION then implemented else True)"

text \<open>The flag as the source computes it: a nil child clears it too.\<close>

fun keeps_flag :: "body_outcome \<Rightarrow> bool" where
  "keeps_flag EmptyElement = False"
| "keeps_flag NilChild = False"
| "keeps_flag (ParsedChild t implemented) =
     (if t = FUNCTION_DEFINITION then implemented else True)"

subsection \<open>A build of two contracts in one file\<close>

text \<open>
  Modelled from the spec: the functions below stand for the collaborators of
  \<^verbatim>\<open>Contract.Parse\<close> that are not among the sources, on inputs small enough to follow by
  hand. The specification's contract parsing: pragmas and imports are parsed and
  appended to the unit's nodes; "each base contract yields a BaseContract"; each body
  element is dispatched to the parser of its kind. An import directive is its path, an
  inheritance specifier the name of the base, and a body element one of three kinds; a
  kind without a parser yields nil, the case the source's \<^verbatim>\<open>else\<close> arm handles.
\<close>

datatype element_kind = FunctionElement bool | StateVariableElement | UnsupportedElement

fun scenario_imports :: "ASTBuilder \<Rightarrow> string list \<Rightarrow> Node list \<times> ASTBuilder" where
  "scenario_imports b [] = ([], b)"
| "scenario_imports b (path # rest) =
     (case GetNextID b of
        (i, b1) \<Rightarrow>
          (case scenario_imports b1 rest of
             (nodes, b2) \<Rightarrow>
               (\<lparr>Node_Id = i, Node_Type = OtherNodeType 0, Node_TypeDescription = None\<rparr> # nodes,
                b2)))"

fun scenario_definition ::
  "ASTBuilder \<Rightarrow> BodyNode \<Rightarrow> element_kind \<Rightarrow> (Node option \<times> BodyNode) \<times> ASTBuilder" where
  "scenario_definition b bodyNode (FunctionElement implemented) =
     (case GetNextID b of
        (i, b1) \<Rightarrow>
          ((Some \<lparr>Node_Id = i, Node_Type = FUNCTION_DEFINITION, Node_TypeDescription = None\<rparr>,
            \<lparr>BodyNode_NodeType = FUNCTION_DEFINITION, Implemented = implemented\<rparr>), b1))"
| "scenario_definition b bodyNode StateVariableElement =
     (case GetNextID b of
        (i, b1) \<Rightarrow>
          ((Some \<lparr>Node_Id = i, Node_Type = OtherNodeType 1, Node_TypeDescription = None\<rparr>,
            \<lparr>BodyNode_NodeType = OtherNodeType 1, Implemented = False\<rparr>), b1))"
| "scenario_definition b bodyNode UnsupportedElement = ((None, bodyNode), b)"

definition scenario_collaborators :: "(string list, string list, element_kind) Collaborators" where
  "scenario_collaborators =
     \<lparr>SetAbsolutePathFromSources = (\<lambda>unit. unit),
      parsePragmasForSourceUnit = (\<lambda>b unitCtx unit ctx. ([], b)),
      parseImportPathsForSourceUnit = (\<lambda>b unitCtx unit ctx. scenario_imports b unitCtx),
      parseInheritanceFromCtx =
        (\<lambda>b unit contractNode bases.
           (map (\<lambda>name. \<lparr>BaseName = name, ModifierArgs = []\<rparr>) bases, b)),
      NewBodyNode = (\<lambda>b. (\<lparr>BodyNode_NodeType = NT_DEFAULT, Implemented = False\<rparr>, b)),
      ParseDefinitions =
        (\<lambda>b bodyNode unit contractNode bodyElement.
           scenario_definition b bodyNode (Element bodyElement))\<rparr>"

definition scenario_token :: Token where
  "scenario_token = \<lparr>tok_Line = 1, tok_Column = 0, tok_Start = 0, tok_Stop = 0\<rparr>"

definition scenario_unit :: "int64 \<Rightarrow> string \<Rightarrow> SourceUnit" where
  "scenario_unit i name =
     \<lparr>Unit_Id = i, Unit_Name = name, AbsolutePath = [], Unit_Src = zero_SrcNode,
      ExportedSymbols = [], Unit_Nodes = [], Unit_BaseContracts = [], Unit_Contract = None\<rparr>"

definition scenario_contract ::
  "string \<Rightarrow> string list \<Rightarrow> element_kind ContractBodyElementContext list
    \<Rightarrow> (string list, element_kind) ContractDefinitionContext" where
  "scenario_contract name bases body =
     \<lparr>ctx_Start = scenario_token, ctx_Stop = scenario_token, Identifier = name,
      InheritanceSpecifierList = bases, AllContractBodyElement = body\<rparr>"

text \<open>
  The input \<^verbatim>\<open>contract A {} contract B is A {}\<close>: one file without import
  directives; the contracts are parsed in the order of their declaration with one
  builder, each into a source unit of its own with a fresh id. The result is the pair of
  the contract nodes of \<open>A\<close> and \<open>B\<close>.
\<close>

definition two_contracts_build :: "Contract option \<times> Contract option" where
  "two_contracts_build =
     (let b0 = \<lparr>nextID = 1, currentEnums = []\<rparr>;
          root = \<lparr>Root_Id = 0\<rparr>
      in
      case GetNextID b0 of (unitIdA, b1) \<Rightarrow>
      case Contract_Parse scenario_collaborators b1 [] (scenario_contract ''A'' [] [])
             root (scenario_unit unitIdA ''A'') of (unitA, b2) \<Rightarrow>
      case GetNextID b2 of (unitIdB, b3) \<Rightarrow>
      case Contract_Parse scenario_collaborators b3 [] (scenario_contract ''B'' [''A''] [])
             root (scenario_unit unitIdB ''B'') of (unitB, b4) \<Rightarrow>
      (Unit_Contract unitA, Unit_Contract unitB))"

text \<open>
  A contract whose only body element is of a kind without a parser: the element is
  not empty, and no function definition is parsed.
\<close>

definition unsupported_element_build :: "SourceUnit \<times> ASTBuilder" where
  "unsupported_element_build =
     Contract_Parse scenario_collaborators \<lparr>nextID = 2, currentEnums = []\<rparr> []
       (scenario_contract ''C'' [] [\<lparr>IsEmpty = False, Element = UnsupportedElement\<rparr>])
       \<lparr>Root_Id = 0\<rparr> (scenario_unit 1 ''C'')"

definition unsupported_element_outcomes :: "body_outcome list" where
  "unsupported_element_outcomes =
     Contract_Parse_outcomes scenario_collaborators \<lparr>nextID = 2, currentEnums = []\<rparr> []
       (scenario_contract ''C'' [] [\<lparr>IsEmpty = False, Element = UnsupportedElement\<rparr>])
       \<lparr>Root_Id = 0\<rparr> (scenario_unit 1 ''C'')"

text \<open>
  Two files: \<^verbatim>\<open>A.sol\<close> with \<^verbatim>\<open>contract A {}\<close>, and a second file with
  \<^verbatim>\<open>import "./A.sol"; contract B is A {}\<close>. The build of \<open>A\<close> is the first half of
  the build above: \<open>A\<close> has id 3 and leaves the builder at id 4, which the unit of
  \<open>B\<close> takes. The unit of \<open>B\<close> has one import directive, so that the loop over the
  imports runs once.
\<close>

definition imported_base_unit :: "SourceUnit \<times> ASTBuilder" where
  "imported_base_unit =
     Contract_Parse scenario_collaborators \<lparr>nextID = 5, currentEnums = []\<rparr> [''./A.sol'']
       (scenario_contract ''B'' [''A''] []) \<lparr>Root_Id = 0\<rparr> (scenario_unit 4 ''B'')"

definition imported_base_nodeImports :: "Node list" where
  "imported_base_nodeImports =
     Contract_Parse_nodeImports scenario_collaborators \<lparr>nextID = 5, currentEnums = []\<rparr>
       [''./A.sol''] (scenario_contract ''B'' [''A''] []) \<lparr>Root_Id = 0\<rparr> (scenario_unit 4 ''B'')"

section \<open>The enum node (\<^verbatim>\<open>EnumDefinition\<close> and \<^verbatim>\<open>EnumDefinition.Parse\<close>)\<close>









section \<open>The bit-xor node (\<^verbatim>\<open>BitXorOperation\<close>)\<close>

text \<open>
  In the sources the bit-xor node is the last file of package \<^verbatim>\<open>ast\<close> in
  \<^verbatim>\<open>abis/helpers.go\<close>.
\<close>

record BitXorOperation =
  BitXor_Id :: int64
  BitXor_NodeType :: NodeType
  BitXor_Src :: SrcNode
  Expressions :: "Node list"
  TypeDescriptions :: "TypeDescription option list"

definition NewBitXorOperationExpression :: "ASTBuilder \<Rightarrow> BitXorOperation \<times> ASTBuilder" where
  "NewBitXorOperationExpression b =
     (case GetNextID b of
        (i, b1) \<Rightarrow>
          (\<lparr>BitXor_Id = i, BitXor_NodeType = BIT_XOR_OPERATION, BitXor_Src = zero_SrcNode,
            Expressions = [], TypeDescriptions = []\<rparr>, b1))"

text \<open>\<^verbatim>\<open>f.TypeDescriptions[0]\<close>: Go panics when the slice is empty.\<close>

definition GetTypeDescription :: "BitXorOperation \<Rightarrow> go_panic + TypeDescription option" where
  "GetTypeDescription f =
     (if 0 < length (TypeDescriptions f) then Inr (TypeDescriptions f ! 0)
      else Inl (IndexOutOfRange 0 (length (TypeDescriptions f))))"

record 'x BitXorOperationContext =
  xor_Start :: Token
  xor_Stop :: Token
  AllExpression :: "'x list"

text \<open>
  The parent of the node: the first of the variable declaration, the enclosing
  expression, the body node and the function node that is not nil, and the contract
  node otherwise, whose \<^verbatim>\<open>GetId\<close> panics on nil.
\<close>

definition parent_index ::
  "Node option \<Rightarrow> Node option \<Rightarrow> Node option \<Rightarrow> Node option \<Rightarrow> Node option
    \<Rightarrow> go_panic + int64" where
  "parent_index vDeclar expNode bodyNode fnNode contractNode =
     (case vDeclar of Some n \<Rightarrow> Inr (Node_Id n) | None \<Rightarrow>
      case expNode of Some n \<Rightarrow> Inr (Node_Id n) | None \<Rightarrow>
      case bodyNode of Some n \<Rightarrow> Inr (Node_Id n) | None \<Rightarrow>
      case fnNode of Some n \<Rightarrow> Inr (Node_Id n) | None \<Rightarrow>
      case contractNode of Some n \<Rightarrow> Inr (Node_Id n) | None \<Rightarrow> Inl NilDereference)"

text \<open>
  \<^verbatim>\<open>NewExpression\<close> and \<^verbatim>\<open>Expression.Parse\<close> are declared in a file that is not among
  the sources. The parameter \<open>parse_expression\<close> is the call
  \<^verbatim>\<open>expression.Parse(unit, contractNode, fnNode, bodyNode, vDeclar, f, expr)\<close>, whose
  first five arguments do not change during the loop: it takes the builder's state, the
  node \<open>f\<close> and the operand's context, and returns the parsed operand with the
  builder's state after it.
\<close>

fun parse_operands ::
  "(ASTBuilder \<Rightarrow> BitXorOperation \<Rightarrow> 'x \<Rightarrow> Node \<times> ASTBuilder)
    \<Rightarrow> BitXorOperation \<Rightarrow> ASTBuilder \<Rightarrow> 'x list \<Rightarrow> BitXorOperation \<times> ASTBuilder" where
  "parse_operands parse_expression f b [] = (f, b)"
| "parse_operands parse_expression f b (expr # rest) =
     (case parse_expression b f expr of
        (parsedExp, b1) \<Rightarrow>
          parse_operands parse_expression
            (f\<lparr>Expressions := Expressions f @ [parsedExp],
               TypeDescriptions := TypeDescriptions f @ [Node_TypeDescription parsedExp]\<rparr>)
            b1 rest)"

definition BitXorOperation_Parse ::
  "(ASTBuilder \<Rightarrow> BitXorOperation \<Rightarrow> 'x \<Rightarrow> Node \<times> ASTBuilder)
    \<Rightarrow> ASTBuilder \<Rightarrow> BitXorOperation
    \<Rightarrow> Node option \<Rightarrow> Node option \<Rightarrow> Node option \<Rightarrow> Node option \<Rightarrow> Node option
    \<Rightarrow> 'x BitXorOperationContext \<Rightarrow> go_panic + BitXorOperation \<times> ASTBuilder" where
  "BitXorOperation_Parse parse_expression b f contractNode fnNode bodyNode vDeclar expNode ctx =
     (case GetNextID b of
        (i, b1) \<Rightarrow>
          let f1 = f\<lparr>BitXor_Id := i\<rparr> in
          (case GetNextID b1 of
             (srcId, b2) \<Rightarrow>
               (case parent_index vDeclar expNode bodyNode fnNode contractNode of
                  Inl p \<Rightarrow> Inl p
                | Inr parent \<Rightarrow>
                    let f2 = f1\<lparr>BitXor_Src :=
                               \<lparr>Src_Id = srcId,
                                Line = tok_Line (xor_Start ctx),
                                Column = tok_Column (xor_Start ctx),
                                Start = tok_Start (xor_Start ctx),
                                End = tok_Stop (xor_Stop ctx),
                                Length = tok_Stop (xor_Stop ctx) - tok_Start (xor_Start ctx) + 1,
                                ParentIndex = parent\<rparr>\<rparr>
                    in Inr (parse_operands parse_expression f2 b2 (AllExpression ctx)))))"

subsection \<open>The usual arithmetic conversions, in the specification's words\<close>

text \<open>
  The specification derives the type of a binary-operation node from its operands:
  "widen to the larger bit-width". \<open>spec_usual_arithmetic_conversions\<close> follows these
  words for integer operands, to be compared with what the source returns: the bit
  width of an operand is the number that ends its type string (\<open>uint8\<close>, \<open>int256\<close>),
  and the result is the first operand of the largest width.
\<close>

definition parse_decimal :: "string \<Rightarrow> nat" where
  "parse_decimal s =
     foldl (\<lambda>n c. 10 * n + length (takeWhile (\<lambda>d. d \<noteq> c) ''0123456789'')) 0 s"

definition bit_width :: "TypeDescription \<Rightarrow> nat" where
  "bit_width t =
     (if HasPrefix (TypeString t) ''uint'' then parse_decimal (drop 4 (TypeString t))
      else if HasPrefix (TypeString t) ''int'' then parse_decimal (drop 3 (TypeString t))
      else 0)"

fun widest :: "TypeDescription \<Rightarrow> TypeDescription list \<Rightarrow> TypeDescription" where
  "widest t [] = t"
| "widest t (u # us) = widest (if bit_width t < bit_width u then u else t) us"

definition spec_usual_arithmetic_conversions ::
  "TypeDescription option list \<Rightarrow> TypeDescription option" where
  "spec_usual_arithmetic_conversions operands =
     (case List.map_filter (\<lambda>t. t) operands of
        [] \<Rightarrow> None
      | t # ts \<Rightarrow> Some (widest t ts))"

subsection \<open>The expression \<^verbatim>\<open>a ^ b\<close> with \<^verbatim>\<open>uint8 a\<close> and \<^verbatim>\<open>uint256 b\<close>\<close>

text \<open>
  Modelled from the spec: an operand's context is the type description its parser will
  give it ("every value-producing node carries a type description"); the parser stands
  for \<^verbatim>\<open>Expression.Parse\<close> and gives the operand a fresh id.
\<close>

definition typed_operand ::
  "ASTBuilder \<Rightarrow> BitXorOperation \<Rightarrow> TypeDescription \<Rightarrow> Node \<times> ASTBuilder" where
  "typed_operand b f t =
     (case GetNextID b of
        (i, b1) \<Rightarrow>
          (\<lparr>Node_Id = i, Node_Type = OtherNodeType 2, Node_TypeDescription = Some t\<rparr>, b1))"

definition t_uint8 :: TypeDescription where
  "t_uint8 = \<lparr>TypeIdentifier = ''t_uint8'', TypeString = ''uint8''\<rparr>"

definition t_uint256 :: TypeDescription where
  "t_uint256 = \<lparr>TypeIdentifier = ''t_uint256'', TypeString = ''uint256''\<rparr>"

definition xor_uint8_uint256 :: "go_panic + BitXorOperation \<times> ASTBuilder" where
  "xor_uint8_uint256 =
     (case NewBitXorOperationExpression \<lparr>nextID = 10, currentEnums = []\<rparr> of
        (f, b) \<Rightarrow>
          BitXorOperation_Parse typed_operand b f
            (Some \<lparr>Node_Id = 3, Node_Type = CONTRACT_DEFINITION, Node_TypeDescription = None\<rparr>)
            None None None None
            \<lparr>xor_Start = scenario_token, xor_Stop = scenario_token,
             AllExpression = [t_uint8, t_uint256]\<rparr>)"

section \<open>ir/root.go: the root of the intermediate representation\<close>

text \<open>
  \<^verbatim>\<open>eip.Standard\<close> is declared in the \<^verbatim>\<open>eip\<close> package, which \<^verbatim>\<open>root.go\<close> only imports.
  \<^verbatim>\<open>SetContractType\<close> switches over five of its constants; every other value falls
  through the switch, which has no default arm.
\<close>

datatype Standard = EIP20 | EIP721 | EIP1155 | EIP1967 | EIP1820 | OtherStandard string

text \<open>
  The fields of \<^verbatim>\<open>RootSourceUnit\<close> whose types are declared in \<^verbatim>\<open>root.go\<close> itself or are
  built in. The fields \<^verbatim>\<open>unit\<close>, \<^verbatim>\<open>NodeType\<close>, \<^verbatim>\<open>Eips\<close> and \<^verbatim>\<open>Contracts\<close> have types of other
  packages; no function modelled here reads or writes them, and they live in the
  record's extension slot.
\<close>

record RootSourceUnit =
  EntryContractId :: "64 word"
  EntryContractName :: string
  ContractsCount :: "32 word"
  ContractTypes :: "string list"

text \<open>The \<^verbatim>\<open>range\<close> loop of \<^verbatim>\<open>HasContractType\<close>: return true at the first equal element.\<close>

fun HasContractType_loop :: "string list \<Rightarrow> string \<Rightarrow> bool" where
  "HasContractType_loop [] ctype = False"
| "HasContractType_loop (t # ts) ctype = (if t = ctype then True else HasContractType_loop ts ctype)"

definition HasContractType :: "'a RootSourceUnit_scheme \<Rightarrow> string \<Rightarrow> bool" where
  "HasContractType r ctype = HasContractType_loop (ContractTypes r) ctype"

definition appendContractType :: "'a RootSourceUnit_scheme \<Rightarrow> string \<Rightarrow> 'a RootSourceUnit_scheme" where
  "appendContractType r contractType =
     (if \<not> HasContractType r contractType
      then r\<lparr>ContractTypes := ContractTypes r @ [contractType]\<rparr>
      else r)"

fun SetContractType :: "'a RootSourceUnit_scheme \<Rightarrow> Standard \<Rightarrow> 'a RootSourceUnit_scheme" where
  "SetContractType r EIP20 = appendContractType r ''token''"
| "SetContractType r EIP721 = appendContractType r ''nft''"
| "SetContractType r EIP1155 = appendContractType r ''nft''"
| "SetContractType r EIP1967 = appendContractType (appendContractType r ''proxy'') ''upgradeable''"
| "SetContractType r EIP1820 = appendContractType (appendContractType r ''proxy'') ''upgradeable''"
| "SetContractType r (OtherStandard s) = r"

text \<open>
  The types a standard asks \<^verbatim>\<open>SetContractType\<close> to add, in the order of the calls to
  \<^verbatim>\<open>appendContractType\<close>, and the list that keeps the first occurrence of every
  element of a list: the two notions the insertion-order property is stated with.
\<close>

fun requested_types :: "Standard \<Rightarrow> string list" where
  "requested_types EIP20 = [''token'']"
| "requested_types EIP721 = [''nft'']"
| "requested_types EIP1155 = [''nft'']"
| "requested_types EIP1967 = [''proxy'', ''upgradeable'']"
| "requested_types EIP1820 = [''proxy'', ''upgradeable'']"
| "requested_types (OtherStandard s) = []"

fun first_occurrences :: "'a list \<Rightarrow> 'a list" where
  "first_occurrences [] = []"
| "first_occurrences (x # xs) = x # filter (\<lambda>y. y \<noteq> x) (first_occurrences xs)"

section \<open>Package validation: the verifier\<close>

text \<open>
  \<^verbatim>\<open>hex.EncodeToString\<close> of the standard library: two lower-case hexadecimal digits for
  each byte, the high four bits first.
\<close>

definition hextable :: string where
  "hextable = ''0123456789abcdef''"

definition EncodeToString :: "8 word list \<Rightarrow> string" where
  "EncodeToString src =
     concat (map (\<lambda>v. [hextable ! unat (drop_bit 4 v), hextable ! unat (v AND 0x0f)]) src)"

text \<open>
  \<^verbatim>\<open>solc.CompilerResults\<close> is declared in the compiler package; the verifier reads its
  \<^verbatim>\<open>Bytecode\<close>. \<open>'d\<close> is \<^verbatim>\<open>diffmatchpatch.Diff\<close>, the element of a diff.
\<close>

record CompilerResults =
  Bytecode :: string

record 'd VerifyResult =
  Verified :: bool
  Result_CompilerResults :: CompilerResults
  ExpectedBytecode :: string
  Diffs :: "'d list"
  DiffPretty :: string

text \<open>
  What \<^verbatim>\<open>Verify\<close> calls outside the package: \<^verbatim>\<open>v.compiler.Compile()\<close>, which returns
  an error or the results, and the two functions of the diff library. They are
  parameters of the model. A Go error is its message.
\<close>

record 'd Verifier =
  Compile :: "string + CompilerResults"
  DiffMain :: "string \<Rightarrow> string \<Rightarrow> bool \<Rightarrow> 'd list"
  DiffPrettyText :: "'d list \<Rightarrow> string"

text \<open>
  The two results of \<^verbatim>\<open>Verify\<close>: the pointer to the result (nil when the compiler
  fails) and the error (nil when the bytecode matches).
\<close>

definition Verify :: "'d Verifier \<Rightarrow> 8 word list \<Rightarrow> 'd VerifyResult option \<times> string option" where
  "Verify v bytecode =
     (case Compile v of
        Inl err \<Rightarrow> (None, Some err)
      | Inr results \<Rightarrow>
          let encoded = EncodeToString bytecode in
          if encoded \<noteq> Bytecode results then
            let diffs = DiffMain v encoded (Bytecode results) False;
                toReturn =
                  \<lparr>Verified = False,
                   Result_CompilerResults = results,
                   ExpectedBytecode = encoded,
                   Diffs = diffs,
                   DiffPretty = DiffPrettyText v diffs\<rparr>
            in (Some toReturn, Some ''bytecode missmatch, failed to verify'')
          else
            (Some \<lparr>Verified = True,
                   Result_CompilerResults = results,
                   ExpectedBytecode = encoded,
                   Diffs = [],
                   DiffPretty = []\<rparr>,
             None))"

text \<open>
  A verifier for a closed example: the compiler returns the bytecode \<open>6080\<close>, and the
  diff of two texts deletes the first (operation -1) and inserts the second
  (operation 1).
\<close>

definition replace_diff :: "string \<Rightarrow> string \<Rightarrow> bool \<Rightarrow> (int \<times> string) list" where
  "replace_diff text1 text2 checklines = [(- 1, text1), (1, text2)]"

definition example_verifier :: "(int \<times> string) Verifier" where
  "example_verifier =
     \<lparr>Compile = Inr \<lparr>Bytecode = ''6080''\<rparr>,
      DiffMain = replace_diff,
      DiffPrettyText = (\<lambda>diffs. concat (map snd diffs))\<rparr>"

section \<open>Properties of abis/helpers.go\<close>

subsection \<open>Where the pattern \<^verbatim>\<open>\[\d+\]\<close> matches\<close>

lemma not_digit_close [simp]: "\<not> is_digit CHR '']''"
  by (simp add: is_digit_def)

lemma match_array_here_cut:
  "match_array_here (c # X @ CHR '']'' # R) = match_array_here (c # X @ '']'')"
proof (cases "\<forall>x\<in>set X. is_digit x")
  case True
  then have "takeWhile is_digit (X @ CHR '']'' # R) = X" "takeWhile is_digit (X @ '']'') = X"
    "dropWhile is_digit (X @ CHR '']'' # R) = CHR '']'' # R" "dropWhile is_digit (X @ '']'') = '']''"
    by (simp_all add: takeWhile_append2 dropWhile_append2)
  then show ?thesis by (simp add: match_array_here_def HasPrefix_Cons)
next
  case False
  then obtain x where x: "x \<in> set X" "\<not> is_digit x" by blast
  then have tw: "takeWhile is_digit (X @ ys) = takeWhile is_digit X"
    and dw: "dropWhile is_digit (X @ ys) = dropWhile is_digit X @ ys" for ys
    by (simp_all add: takeWhile_append1 dropWhile_append1)
  from x have "dropWhile is_digit X \<noteq> []" by auto
  then obtain d ds where "dropWhile is_digit X = d # ds" by (cases "dropWhile is_digit X") auto
  then show ?thesis by (simp add: match_array_here_def tw dw HasPrefix_Cons)
qed

text \<open>A match holds one closing bracket, its last byte: no match runs across one.\<close>

lemma MatchString_array_split:
  "MatchString_array (X @ CHR '']'' # R) = (MatchString_array (X @ '']'') \<or> MatchString_array R)"
proof (induction X)
  case Nil
  show ?case by (simp add: match_array_here_def)
next
  case (Cons c X)
  have "match_array_here (c # X @ CHR '']'' # R) = match_array_here (c # X @ '']'')"
    by (rule match_array_here_cut)
  with Cons show ?case by auto
qed

lemma MatchString_array_skip:
  "CHR ''['' \<notin> set P \<Longrightarrow> MatchString_array (P @ s) = MatchString_array s"
  by (induction P) (auto simp: match_array_here_def)

lemma match_array_here_open: "match_array_here s \<Longrightarrow> CHR ''['' \<in> set s"
  by (auto simp: match_array_here_def split: list.splits)

lemma MatchString_array_open: "MatchString_array s \<Longrightarrow> CHR ''['' \<in> set s"
  by (induction s) (auto dest: match_array_here_open)

lemma takeWhile_neq_stop: "c \<notin> set N \<Longrightarrow> takeWhile (\<lambda>x. x \<noteq> c) (N @ c # R) = N"
  by (induction N) auto

subsection \<open>The arms of \<^verbatim>\<open>normalizeTypeName\<close>\<close>

text \<open>
  When the array arm returns, the name is \<open>P[N]R\<close>: \<open>P\<close> holds no opening bracket,
  \<open>N\<close> no closing bracket, \<open>N\<close> is the number part and \<open>R\<close> the type part.
\<close>

lemma array_arm_shape:
  assumes m: "MatchString_array t"
    and n: "slice t (Index t ''['' + 1) (Index t '']'') = Inr N"
    and r: "slice_from t (Index t '']'' + 1) = Inr R"
  shows "\<exists>P. t = P @ CHR ''['' # N @ CHR '']'' # R \<and> CHR ''['' \<notin> set P \<and> CHR '']'' \<notin> set N"
proof -
  from MatchString_array_close [OF m] obtain Q R0
    where tQ: "t = Q @ CHR '']'' # R0" and Q: "CHR '']'' \<notin> set Q"
    by (auto dest: split_list_first)
  from MatchString_array_open [OF m] obtain P S
    where tP: "t = P @ CHR ''['' # S" and P: "CHR ''['' \<notin> set P"
    by (auto dest: split_list_first)
  have j: "Index t '']'' = int (length Q)"
    using Q by (simp add: Index_char tQ takeWhile_neq_stop)
  have i: "Index t ''['' = int (length P)"
    using P by (simp add: Index_char tP takeWhile_neq_stop)
  from n i j have lt: "length P < length Q"
    and N: "N = take (length Q - (length P + 1)) (drop (length P + 1) t)"
    by (auto simp: slice_def nat_add_distrib split: if_splits)
  from r j have "R = drop (length Q + 1) t"
    by (auto simp: slice_from_def nat_add_distrib split: if_splits)
  then have R: "R = R0" by (simp add: tQ)
  from N have N': "N = take (length Q - (length P + 1)) S" by (simp add: tP)
  have "Q = take (length Q) t" by (simp add: tQ)
  also have "\<dots> = P @ take (length Q - length P) (CHR ''['' # S)"
    using lt by (simp add: tP)
  also have "take (length Q - length P) (CHR ''['' # S) = CHR ''['' # N"
  proof -
    from lt have "length Q - length P = Suc (length Q - (length P + 1))" by simp
    then show ?thesis using N' by simp
  qed
  finally have Q1: "Q = P @ CHR ''['' # N" .
  with Q have "CHR '']'' \<notin> set N" by auto
  with tQ Q1 R P show ?thesis by auto
qed

lemma normalizeTypeName_array_arm:
  assumes m: "MatchString_array t" and res: "normalizeTypeName t = Inr r"
  shows "\<exists>P N R R'. t = P @ CHR ''['' # N @ CHR '']'' # R \<and> CHR ''['' \<notin> set P \<and>
           CHR '']'' \<notin> set N \<and> normalizeTypeName R = Inr R' \<and>
           slice_from t (Index t '']'' + 1) = Inr R \<and>
           slice t (Index t ''['' + 1) (Index t '']'') = Inr N \<and>
           r = CHR ''['' # N @ CHR '']'' # R'"
proof -
  from res m obtain N R R'
    where n: "slice t (Index t ''['' + 1) (Index t '']'') = Inr N"
      and r: "slice_from t (Index t '']'' + 1) = Inr R"
      and rec: "normalizeTypeName R = Inr R'"
      and out: "r = CHR ''['' # N @ CHR '']'' # R'"
    by (subst (asm) normalizeTypeName.simps) (auto simp: Let_def split: sum.splits)
  from array_arm_shape [OF m n r] n r rec out show ?thesis by blast
qed

lemma normalizeTypeName_slice_arm:
  assumes m: "\<not> MatchString_array t" and p: "HasPrefix t ''[]''"
    and res: "normalizeTypeName t = Inr r"
  shows "\<exists>R R'. t = ''[]'' @ R \<and> normalizeTypeName R = Inr R' \<and> slice_from t 2 = Inr R \<and>
           r = ''[]'' @ R'"
proof -
  from res m p obtain R R'
    where r: "slice_from t 2 = Inr R"
      and rec: "normalizeTypeName R = Inr R'"
      and out: "r = ''[]'' @ R'"
    by (subst (asm) normalizeTypeName.simps) (auto simp: Let_def split: sum.splits)
  from p obtain q where "t = ''[]'' @ q" by (auto simp: HasPrefix_Cons)
  with r have "t = ''[]'' @ R" by (auto simp: slice_from_def split: if_splits)
  with r rec out show ?thesis by blast
qed

lemma normalizeTypeName_other_arms:
  assumes m: "\<not> MatchString_array t" and p: "\<not> HasPrefix t ''[]''"
    and res: "normalizeTypeName t = Inr r"
  shows "r = t \<or> r = ''uint256'' \<or> r = ''int256'' \<or> r = ''address''"
  using res m p
  by (subst (asm) normalizeTypeName.simps) (auto simp: Let_def split: if_splits)

lemma normalizeTypeName_array_step:
  assumes "MatchString_array t"
    and "slice t (Index t ''['' + 1) (Index t '']'') = Inr N"
    and "slice_from t (Index t '']'' + 1) = Inr R"
    and "normalizeTypeName R = Inr R'"
  shows "normalizeTypeName t = Inr (CHR ''['' # N @ CHR '']'' # R')"
  using assms by (subst normalizeTypeName.simps) simp

lemma normalizeTypeName_slice_step:
  assumes "\<not> MatchString_array t" and "HasPrefix t ''[]''"
    and "slice_from t 2 = Inr R"
    and "normalizeTypeName R = Inr R'"
  shows "normalizeTypeName t = Inr (''[]'' @ R')"
  using assms by (subst normalizeTypeName.simps) simp

text \<open>
  The default arm: a name that holds no match of the array pattern anywhere and that
  rule 6 of the specification applies to is returned as it is.
\<close>

lemma normalizeTypeName_default_arm:
  assumes "\<not> MatchString_array t" and "spec_rule6_applies t"
  shows "normalizeTypeName t = Inr t"
  using assms by (subst normalizeTypeName.simps) (simp add: spec_rule6_applies_def)

lemma normalizeTypeName_fixed_uint256: "normalizeTypeName ''uint256'' = Inr ''uint256''"
  by code_simp

lemma normalizeTypeName_fixed_int256: "normalizeTypeName ''int256'' = Inr ''int256''"
  by code_simp

lemma normalizeTypeName_fixed_address: "normalizeTypeName ''address'' = Inr ''address''"
  by code_simp

subsection \<open>What \<^verbatim>\<open>normalizeTypeName\<close> returns is a fixed point\<close>

lemma normalizeTypeName_keeps_array_match:
  "normalizeTypeName t = Inr r \<Longrightarrow> MatchString_array r = MatchString_array t"
proof (induction t arbitrary: r rule: normalizeTypeName.induct)
  case (1 typeName)
  note res = \<open>normalizeTypeName typeName = Inr r\<close>
  show ?case
  proof (cases "MatchString_array typeName")
    case True
    from normalizeTypeName_array_arm [OF True res] obtain P N R R'
      where t: "typeName = P @ CHR ''['' # N @ CHR '']'' # R" and P: "CHR ''['' \<notin> set P"
        and rec: "normalizeTypeName R = Inr R'"
        and sl: "slice_from typeName (Index typeName '']'' + 1) = Inr R"
        and sn: "slice typeName (Index typeName ''['' + 1) (Index typeName '']'') = Inr N"
        and out: "r = CHR ''['' # N @ CHR '']'' # R'"
      by blast
    have ih: "MatchString_array R' = MatchString_array R"
      using "1.IH"(1) [OF refl refl True sn sl rec] .
    have "MatchString_array typeName = MatchString_array ((CHR ''['' # N) @ CHR '']'' # R)"
      using P by (simp add: t MatchString_array_skip)
    also have "\<dots> = (MatchString_array ((CHR ''['' # N) @ '']'') \<or> MatchString_array R)"
      by (rule MatchString_array_split)
    also have "\<dots> = (MatchString_array ((CHR ''['' # N) @ '']'') \<or> MatchString_array R')"
      by (simp add: ih)
    also have "\<dots> = MatchString_array ((CHR ''['' # N) @ CHR '']'' # R')"
      by (rule MatchString_array_split [symmetric])
    finally show ?thesis by (simp add: out)
  next
    case False
    show ?thesis
    proof (cases "HasPrefix typeName ''[]''")
      case True
      from normalizeTypeName_slice_arm [OF False True res] obtain R R'
        where t: "typeName = ''[]'' @ R" and rec: "normalizeTypeName R = Inr R'"
          and sl: "slice_from typeName 2 = Inr R" and out: "r = ''[]'' @ R'"
        by blast
      have ih: "MatchString_array R' = MatchString_array R"
        using "1.IH"(2) [OF refl refl False True sl rec] .
      have "MatchString_array (''['' @ CHR '']'' # X) = MatchString_array X" for X
        by (subst MatchString_array_split) (simp add: match_array_here_def)
      then have "MatchString_array (''[]'' @ X) = MatchString_array X" for X by simp
      then show ?thesis using ih by (simp only: out) (simp only: t)
    next
      case nosl: False
      from normalizeTypeName_other_arms [OF False nosl res] False
      show ?thesis by (auto simp: match_array_here_def)
    qed
  qed
qed

text \<open>
  Wherever \<^verbatim>\<open>normalizeTypeName\<close> returns, its result is a name it returns unchanged:
  on the inputs on which the function does not panic, normalising twice is normalising
  once.
\<close>

lemma normalizeTypeName_fixed_point:
  "normalizeTypeName t = Inr r \<Longrightarrow> normalizeTypeName r = Inr r"
proof (induction t arbitrary: r rule: normalizeTypeName.induct)
  case (1 typeName)
  note res = \<open>normalizeTypeName typeName = Inr r\<close>
  show ?case
  proof (cases "MatchString_array typeName")
    case True
    from normalizeTypeName_array_arm [OF True res] obtain P N R R'
      where N: "CHR '']'' \<notin> set N"
        and rec: "normalizeTypeName R = Inr R'"
        and sl: "slice_from typeName (Index typeName '']'' + 1) = Inr R"
        and sn: "slice typeName (Index typeName ''['' + 1) (Index typeName '']'') = Inr N"
        and out: "r = CHR ''['' # N @ CHR '']'' # R'"
      by blast
    have ih: "normalizeTypeName R' = Inr R'"
      using "1.IH"(1) [OF refl refl True sn sl rec] .
    have mr: "MatchString_array r"
      using normalizeTypeName_keeps_array_match [OF res] True by simp
    have i: "Index r ''['' = 0" by (simp add: Index_char out)
    have j: "Index r '']'' = 1 + int (length N)"
      using N by (simp add: Index_char out takeWhile_neq_stop)
    have s1: "slice r (Index r ''['' + 1) (Index r '']'') = Inr N"
      unfolding i j by (simp add: slice_def out)
    have s2: "slice_from r (Index r '']'' + 1) = Inr R'"
      unfolding j by (simp add: slice_from_def out nat_add_distrib)
    show ?thesis
      using normalizeTypeName_array_step [OF mr s1 s2 ih] by (simp add: out)
  next
    case False
    have nr: "\<not> MatchString_array r"
      using normalizeTypeName_keeps_array_match [OF res] False by simp
    show ?thesis
    proof (cases "HasPrefix typeName ''[]''")
      case True
      from normalizeTypeName_slice_arm [OF False True res] obtain R R'
        where rec: "normalizeTypeName R = Inr R'"
          and sl: "slice_from typeName 2 = Inr R" and out: "r = ''[]'' @ R'"
        by blast
      have ih: "normalizeTypeName R' = Inr R'"
        using "1.IH"(2) [OF refl refl False True sl rec] .
      have p: "HasPrefix r ''[]''" by (simp add: out HasPrefix_Cons)
      have s: "slice_from r 2 = Inr R'" by (simp add: out slice_from_def)
      show ?thesis
        using normalizeTypeName_slice_step [OF nr p s ih] by (simp add: out)
    next
      case nosl: False
      from normalizeTypeName_other_arms [OF False nosl res] res
      show ?thesis
        by (auto simp: normalizeTypeName_fixed_uint256 normalizeTypeName_fixed_int256
            normalizeTypeName_fixed_address)
    qed
  qed
qed

text \<open>
  Claim C4. A name that rule 6 of the specification applies to (no anchored array
  prefix, no \<open>[]\<close> prefix, none of the elementary names) is returned unchanged; the
  claim's own example is \<open>foo[2]\<close>. The source does not do so: its pattern has no
  anchor, so the array arm takes \<open>foo[2]\<close>, keeps the text between the first opening
  and the first closing bracket and the text after it, and loses \<open>foo\<close>.
\<close>

theorem normalizeTypeName_drops_name_before_suffix_array:
  "spec_rule6_applies ''foo[2]'' \<and> normalizeTypeName ''foo[2]'' = Inr ''[2]''"
  by code_simp

text \<open>
  Claim C8. For every input \<open>t\<close>, \<open>normalize(normalize(t)) = normalize(t)\<close>. On every
  input on which the source returns this holds (\<open>normalizeTypeName_fixed_point\<close>), but
  the source does not return on every input: when a closing bracket comes before the
  first opening bracket and the unanchored pattern matches further on, the slice
  expression for the number part has its bounds reversed and panics.
\<close>

theorem normalizeTypeName_panics_closing_before_opening:
  "normalizeTypeName '']a[1]'' = Inl (SliceBoundsOutOfRange 3 0)"
  by code_simp

subsection \<open>\<^verbatim>\<open>parseMappingType\<close>\<close>

lemma not_word_space [simp]: "\<not> is_word CHR '' ''"
  by (simp add: is_word_def)

lemma not_space_eq [simp]: "\<not> is_space CHR ''=''"
  by (simp add: is_space_def)

lemma space_space [simp]: "is_space CHR '' ''"
  by (simp add: is_space_def)

lemma match_value_closed:
  assumes W: "W \<noteq> []" and nl: "CHR 0x0A \<notin> set W"
  shows "match_value (W @ '')'') = Some W"
proof -
  have line: "takeWhile (\<lambda>c. c \<noteq> CHR 0x0A) (W @ '')'') = W @ '')''"
    using nl by (auto simp: takeWhile_append2)
  have up: "[1..<length (W @ '')'')] = [1..<length W] @ [length W]"
    using W by (simp add: Suc_leI)
  have "filter (\<lambda>i. (W @ '')'') ! i = CHR '')'') [1..<length (W @ '')'')]
        = filter (\<lambda>i. (W @ '')'') ! i = CHR '')'') [1..<length W] @ [length W]"
    unfolding up by simp
  then show ?thesis
    by (simp add: match_value_def Let_def line del: upt_Suc)
qed

lemma match_mapping_here_canonical:
  assumes K: "K \<noteq> []" "list_all is_word K"
    and W: "W \<noteq> []" "CHR 0x0A \<notin> set W" "\<not> is_space (hd W)"
  shows "match_mapping_here (''mapping('' @ K @ '' => '' @ W @ '')'') = Some (K, W)"
proof -
  have r1: "strip_prefix ''mapping('' (''mapping('' @ K @ '' => '' @ W @ '')'')
            = Some (K @ '' => '' @ W @ '')'')"
    by (simp add: strip_prefix_def HasPrefix_def)
  have allK: "\<forall>x\<in>set K. is_word x" using K(2) by (simp add: list_all_iff)
  have tw: "takeWhile is_word (K @ '' => '' @ W @ '')'') = K"
    using allK by (simp add: takeWhile_append2)
  have dw: "dropWhile is_word (K @ '' => '' @ W @ '')'') = '' => '' @ W @ '')''"
    using allK by (simp add: dropWhile_append2)
  have r2: "strip_prefix ''=>'' (dropWhile is_space ('' => '' @ W @ '')''))
            = Some ('' '' @ W @ '')'')"
    by (simp add: strip_prefix_def HasPrefix_def)
  obtain w ws where Wc: "W = w # ws" using W(1) by (cases W) auto
  with W(3) have w: "\<not> is_space w" by simp
  have sp: "length (takeWhile is_space ('' '' @ W @ '')'')) = Suc 0"
    using w by (simp add: Wc)
  have mv: "match_spaces_value (Suc 0) ('' '' @ W @ '')'') = Some W"
    using match_value_closed [OF W(1) W(2)] by simp
  show ?thesis
    unfolding match_mapping_here_def r1 option.case tw dw r2 sp mv
    using K(1) by simp
qed


lemma FindStringSubmatch_mapping_canonical:
  assumes "K \<noteq> []" "list_all is_word K" "W \<noteq> []" "CHR 0x0A \<notin> set W" "\<not> is_space (hd W)"
  shows "FindStringSubmatch_mapping (''mapping('' @ K @ '' => '' @ W @ '')'') = Some (K, W)"
proof -
  have "FindStringSubmatch_mapping (CHR ''m'' # ''apping('' @ K @ '' => '' @ W @ '')'')
        = Some (K, W)"
    using match_mapping_here_canonical [OF assms]
    by (simp only: FindStringSubmatch_mapping.simps) simp
  then show ?thesis by simp
qed

lemma parseMappingType_canonical_plain:
  assumes "K \<noteq> []" "list_all is_word K" "W \<noteq> []" "CHR 0x0A \<notin> set W" "\<not> is_space (hd W)"
    and "\<not> isMappingType W"
  shows "parseMappingType (''mapping('' @ K @ '' => '' @ W @ '')'') = (True, [K], [W])"
  using FindStringSubmatch_mapping_canonical [OF assms(1-5)] assms(6)
  by (subst parseMappingType.simps) simp

lemma parseMappingType_canonical_nested:
  assumes K: "K \<noteq> []" "list_all is_word K"
    and W: "CHR 0x0A \<notin> set W" "isMappingType W"
      "W \<noteq> []" "\<not> is_space (hd W)"
  shows "parseMappingType (''mapping('' @ K @ '' => '' @ W @ '')'')
         = (True, K # fst (snd (parseMappingType W)), snd (snd (parseMappingType W)))"
  using FindStringSubmatch_mapping_canonical [OF K W(3) W(1) W(4)] W(2)
  by (subst parseMappingType.simps) (simp split: prod.splits)

lemma Index_from_shift: "(0 \<le> Index_from i s sub) = (0 \<le> Index_from j s sub)"
  by (induction s arbitrary: i j) auto

lemma Contains_Cons: "Contains cs sub \<Longrightarrow> Contains (c # cs) sub"
  using Index_from_shift [of 0 cs sub "Suc 0"] by (simp add: Contains_def Index_def)

lemma HasPrefix_append: "HasPrefix s (p @ q) \<Longrightarrow> HasPrefix s p"
proof -
  assume h: "HasPrefix s (p @ q)"
  then have "take (length p + length q) s = p @ q" and "length p + length q \<le> length s"
    by (simp_all add: HasPrefix_def)
  then have "take (length p) (take (length p + length q) s) = p" by simp
  then have "take (length p) s = p" by (simp add: min_def)
  with h show ?thesis by (simp add: HasPrefix_def)
qed

lemma HasPrefix_Contains: "HasPrefix s p \<Longrightarrow> Contains s p"
  by (cases s) (auto simp: Contains_def Index_def HasPrefix_def)

lemma match_mapping_here_Contains: "match_mapping_here s = Some m \<Longrightarrow> isMappingType s"
proof -
  assume "match_mapping_here s = Some m"
  then have "HasPrefix s (''mapping'' @ ''('')"
    by (auto simp: match_mapping_here_def strip_prefix_def split: option.splits if_splits)
  then have "HasPrefix s ''mapping''" by (rule HasPrefix_append)
  then show ?thesis unfolding isMappingType_def by (rule HasPrefix_Contains)
qed

lemma FindStringSubmatch_mapping_Contains:
  "FindStringSubmatch_mapping s = Some m \<Longrightarrow> isMappingType s"
proof (induction s)
  case Nil
  then show ?case by simp
next
  case (Cons c cs)
  show ?case
  proof (cases "match_mapping_here (c # cs)")
    case None
    with Cons have "isMappingType cs" by simp
    then show ?thesis by (simp add: isMappingType_def Contains_Cons)
  next
    case (Some a)
    then show ?thesis by (rule match_mapping_here_Contains)
  qed
qed

lemma parseMappingType_no_match:
  "FindStringSubmatch_mapping abi = None \<Longrightarrow> parseMappingType abi = (False, [], [])"
  by (subst parseMappingType.simps) simp

lemma isMappingType_canonical: "isMappingType (''mapping('' @ X)"
  by (simp add: isMappingType_def Contains_def Index_def HasPrefix_def)


lemma is_word_not_newline: "is_word c \<Longrightarrow> c \<noteq> CHR 0x0A"
  by (auto simp: is_word_def)

lemma nested_mapping_no_newline:
  "list_all is_key Ks \<Longrightarrow> CHR 0x0A \<notin> set V \<Longrightarrow> CHR 0x0A \<notin> set (nested_mapping Ks V)"
  by (induction Ks) (auto simp: is_key_def list_all_iff dest: is_word_not_newline)

text \<open>
  Where the source flattens: on \<open>mapping(K1 => mapping(... mapping(Kn => V)...))\<close>
  with one space on each side of the arrows, keys that are words and a plain innermost
  value, the result is true, the keys in order and the value alone.
\<close>

lemma parseMappingType_nested:
  assumes "Ks \<noteq> []" "list_all is_key Ks" "is_plain_value V"
  shows "parseMappingType (nested_mapping Ks V) = (True, Ks, [V])"
  using assms
proof (induction Ks)
  case Nil
  then show ?case by simp
next
  case (Cons K Ks)
  from Cons.prems have "is_key K" and Ks: "list_all is_key Ks" by simp_all
  then have K: "K \<noteq> []" "list_all is_word K" by (simp_all add: is_key_def)
  from Cons.prems have V: "V \<noteq> []" "CHR 0x0A \<notin> set V" "\<not> is_space (hd V)" "\<not> isMappingType V"
    by (simp_all add: is_plain_value_def)
  show ?case
  proof (cases Ks)
    case Nil
    with parseMappingType_canonical_plain [OF K V] show ?thesis by simp
  next
    case (Cons K2 Ks2)
    define W where "W = nested_mapping Ks V"
    have ih: "parseMappingType W = (True, Ks, [V])"
      unfolding W_def using Cons Cons.IH Ks Cons.prems(3) by simp
    have nl: "CHR 0x0A \<notin> set W"
      unfolding W_def using Ks V(2) by (rule nested_mapping_no_newline)
    have W: "W = ''mapping('' @ K2 @ '' => '' @ nested_mapping Ks2 V @ '')''"
      by (simp add: W_def Cons)
    have ne: "W \<noteq> []" and hd: "\<not> is_space (hd W)" by (simp_all add: W is_space_def)
    have mp: "isMappingType W" unfolding W by (rule isMappingType_canonical)
    from parseMappingType_canonical_nested [OF K nl mp ne hd]
    have "parseMappingType (''mapping('' @ K @ '' => '' @ W @ '')'') = (True, K # Ks, [V])"
      by (simp add: ih)
    then show ?thesis by (simp add: W_def)
  qed
qed

text \<open>
  Claim C7. \<^verbatim>\<open>parseMappingType\<close> flattens every nested mapping text: the keys from
  left to right and the innermost value that is not a mapping alone, as for
  \<open>mapping(address => mapping(uint256 => bytes32))\<close>; on a text that is not a mapping
  it returns false and two empty lists. The function's own comment says the same. The
  source does so on the specification's scenario, and on every nested text whose
  innermost value does not hold the word \<open>mapping\<close> (\<open>parseMappingType_nested\<close>). It
  does not on an innermost value such as the struct name \<open>mappingInfo\<close>:
  \<^verbatim>\<open>isMappingType\<close> is a substring test, so the function recurses into the value, the
  pattern does not match there, the flag of the nested call is discarded and the
  value list is replaced by the empty list of the failed call: the innermost value is
  lost. Nor does it on a text that holds a mapping without being one, such as the array
  type \<open>mapping(uint => uint)[]\<close>: the pattern has no anchor and the result is true.
\<close>

theorem parseMappingType_loses_innermost_value:
  "parseMappingType ''mapping(address => mapping(uint256 => bytes32))''
     = (True, [''address'', ''uint256''], [''bytes32'']) \<and>
   parseMappingType ''mapping(address => mapping(uint256 => mappingInfo))''
     = (True, [''address'', ''uint256''], []) \<and>
   parseMappingType ''mapping(uint => uint)[]'' = (True, [''uint''], [''uint''])"
  by code_simp

section \<open>Properties of the contract node\<close>

text \<open>The loop over the body elements writes the nodes and the flag, nothing else.\<close>

lemma parse_body_element_keeps:
  "parse_body_element P unit c l e = (c', l') \<Longrightarrow>
     LinearizedBaseContracts c' = LinearizedBaseContracts c \<and>
     ContractDependencies c' = ContractDependencies c \<and>
     BaseContracts c' = BaseContracts c \<and>
     Contract_Id c' = Contract_Id c \<and> Contract_Name c' = Contract_Name c"
  by (auto simp: parse_body_element_def split: if_splits prod.splits option.splits)

lemma parse_body_elements_keeps:
  "parse_body_elements P unit c l es = (c', l') \<Longrightarrow>
     LinearizedBaseContracts c' = LinearizedBaseContracts c \<and>
     ContractDependencies c' = ContractDependencies c \<and>
     BaseContracts c' = BaseContracts c \<and>
     Contract_Id c' = Contract_Id c \<and> Contract_Name c' = Contract_Name c"
proof (induction es arbitrary: c l)
  case Nil
  then show ?case by simp
next
  case (Cons e es)
  obtain c1 l1 where s: "parse_body_element P unit c l e = (c1, l1)" by fastforce
  with Cons.prems have "parse_body_elements P unit c1 l1 es = (c', l')" by simp
  from Cons.IH [OF this] parse_body_element_keeps [OF s] show ?case by simp
qed

lemma append_imports_fields:
  "LinearizedBaseContracts (append_imports c ns) = LinearizedBaseContracts c @ map Node_Id ns \<and>
   ContractDependencies (append_imports c ns) = ContractDependencies c @ map Node_Id ns \<and>
   BaseContracts (append_imports c ns) = BaseContracts c \<and>
   Contract_Id (append_imports c ns) = Contract_Id c \<and>
   Contract_Name (append_imports c ns) = Contract_Name c \<and>
   FullyImplemented (append_imports c ns) = FullyImplemented c"
  by (induction c ns rule: append_imports.induct) simp_all

lemma Contract_Parse_head_fields:
  "Contract_Parse_head P l u ctx root unit = (unit6, c3, l5) \<Longrightarrow>
     LinearizedBaseContracts c3 = Contract_Id c3 # ContractDependencies c3 \<and>
     FullyImplemented c3"
  by (auto simp: Contract_Parse_head_def Let_def append_imports_fields split: prod.splits)

text \<open>
  Before the loop over the body elements the contract node holds its own id followed
  by the ids of the import nodes, the same ids as its dependencies, the base contracts
  that \<^verbatim>\<open>parseInheritanceFromCtx\<close> returned, and the identifier of the context as
  its name; the unit holds the same base contracts.
\<close>

lemma Contract_Parse_head_lists:
  "Contract_Parse_head P l u ctx root unit = (unit6, c3, l5) \<Longrightarrow>
     LinearizedBaseContracts c3
       = Contract_Id c3 # map Node_Id (Contract_Parse_nodeImports P l u ctx root unit) \<and>
     ContractDependencies c3 = map Node_Id (Contract_Parse_nodeImports P l u ctx root unit) \<and>
     BaseContracts c3 = Contract_Parse_inheritance P l u ctx root unit \<and>
     Unit_BaseContracts unit6 = Contract_Parse_inheritance P l u ctx root unit \<and>
     Contract_Name c3 = Identifier ctx"
  by (auto simp: Contract_Parse_head_def Contract_Parse_nodeImports_def
      Contract_Parse_imports_def Contract_Parse_inheritance_def Let_def append_imports_fields
      split: prod.splits)

text \<open>
  When \<^verbatim>\<open>SetAbsolutePathFromSources\<close> leaves the unit's name alone, the unit keeps the
  name it came with. A unit that came with the name of its contract, the identifier of
  the context, has the name of the contract node all through the loop.
\<close>

lemma Contract_Parse_head_names:
  assumes "Contract_Parse_head P l u ctx root unit = (unit6, c3, l5)"
    and "\<And>x. Unit_Name (SetAbsolutePathFromSources P x) = Unit_Name x"
    and "Unit_Name unit = Identifier ctx"
  shows "Unit_Name unit6 = Contract_Name c3"
  using assms
  by (auto simp: Contract_Parse_head_def Let_def append_imports_fields split: prod.splits)

lemma parse_body_element_flag:
  "parse_body_element P unit c l e = (c', l') \<Longrightarrow>
     FullyImplemented c' = (FullyImplemented c \<and> keeps_flag (element_outcome P unit c l e))"
  by (auto simp: parse_body_element_def element_outcome_def
      split: if_splits prod.splits option.splits)

lemma parse_body_elements_flag:
  "parse_body_elements P unit c l es = (c', l') \<Longrightarrow>
     FullyImplemented c' =
       (FullyImplemented c \<and> list_all keeps_flag (body_outcomes P unit c l es))"
proof (induction es arbitrary: c l)
  case Nil
  then show ?case by simp
next
  case (Cons e es)
  obtain c1 l1 where s: "parse_body_element P unit c l e = (c1, l1)" by fastforce
  with Cons.prems have "parse_body_elements P unit c1 l1 es = (c', l')" by simp
  from Cons.IH [OF this] parse_body_element_flag [OF s] s show ?case by auto
qed

text \<open>
  Claim C1, as stated: for \<^verbatim>\<open>contract A {} contract B is A {}\<close> the linearized base
  contracts of \<open>B\<close> are \<open>[B.id, A.id]\<close>. In the build of the two contracts \<open>A\<close> has
  id 3 and \<open>B\<close> has id 6, and the list of \<open>B\<close> is not \<open>[6, 3]\<close>.
\<close>

theorem two_contracts_linearization_counterexample:
  "map_option Contract_Id (fst two_contracts_build) = Some 3 \<and>
   map_option Contract_Id (snd two_contracts_build) = Some 6 \<and>
   map_option LinearizedBaseContracts (snd two_contracts_build) \<noteq> Some [6, 3]"
  by code_simp

text \<open>
  Claim C1, as the source has it. After \<^verbatim>\<open>Contract.Parse\<close> the linearized base
  contracts of the contract are its own id followed by the ids of the import nodes that
  \<^verbatim>\<open>parseImportPathsForSourceUnit\<close> returned for the unit, in their order, and these
  ids are the contract's dependencies; the base contracts are not consulted. The base
  contracts of the contract, and of the unit, are the list that
  \<^verbatim>\<open>parseInheritanceFromCtx\<close> returned for the inheritance specifier list. For
  \<^verbatim>\<open>contract A {} contract B is A {}\<close>, whose unit has no import, the list of \<open>B\<close> is
  \<open>[B.id]\<close>.
\<close>

theorem Contract_Parse_linearized_self_then_imports:
  "(case Unit_Contract (fst (Contract_Parse P l unitCtx ctx rootNode unit)) of
      None \<Rightarrow> False
    | Some c \<Rightarrow>
        LinearizedBaseContracts c
          = Contract_Id c # map Node_Id (Contract_Parse_nodeImports P l unitCtx ctx rootNode unit) \<and>
        ContractDependencies c
          = map Node_Id (Contract_Parse_nodeImports P l unitCtx ctx rootNode unit) \<and>
        BaseContracts c = Contract_Parse_inheritance P l unitCtx ctx rootNode unit \<and>
        Unit_BaseContracts (fst (Contract_Parse P l unitCtx ctx rootNode unit))
          = Contract_Parse_inheritance P l unitCtx ctx rootNode unit)"
proof -
  obtain unit6 c3 l5 where h: "Contract_Parse_head P l unitCtx ctx rootNode unit = (unit6, c3, l5)"
    by (metis prod_cases3)
  obtain c4 l6 where b: "parse_body_elements P unit6 c3 l5 (AllContractBodyElement ctx) = (c4, l6)"
    by fastforce
  from Contract_Parse_head_lists [OF h] parse_body_elements_keeps [OF b]
  show ?thesis by (simp add: Contract_Parse_def h b Let_def)
qed

theorem Contract_Parse_linearized_self_then_imports_witness:
  "map Node_Id imported_base_nodeImports = [6] \<and>
   map_option Contract_Id (Unit_Contract (fst imported_base_unit)) = Some 7 \<and>
   map_option LinearizedBaseContracts (Unit_Contract (fst imported_base_unit)) = Some [7, 6] \<and>
   map_option ContractDependencies (Unit_Contract (fst imported_base_unit)) = Some [6]"
proof -
  have i: "map Node_Id imported_base_nodeImports = [6]" by code_simp
  have c: "map_option Contract_Id (Unit_Contract (fst imported_base_unit)) = Some 7"
    by code_simp
  from Contract_Parse_linearized_self_then_imports
         [where P = scenario_collaborators and l = "\<lparr>nextID = 5, currentEnums = []\<rparr>"
            and unitCtx = "[''./A.sol'']" and ctx = "scenario_contract ''B'' [''A''] []"
            and rootNode = "\<lparr>Root_Id = 0\<rparr>" and unit = "scenario_unit 4 ''B''"]
  have "case Unit_Contract (fst imported_base_unit) of
          None \<Rightarrow> False
        | Some c \<Rightarrow>
            LinearizedBaseContracts c = Contract_Id c # map Node_Id imported_base_nodeImports \<and>
            ContractDependencies c = map Node_Id imported_base_nodeImports"
    by (simp add: imported_base_unit_def imported_base_nodeImports_def split: option.splits)
  with i c show ?thesis by (auto split: option.splits)
qed

text \<open>
  Claim C6, as stated: the flag is true exactly when no body element was empty and every
  parsed function definition is implemented. A contract whose one body element is not
  empty and parses to nil has the flag cleared, although no element was empty and no
  function definition was parsed.
\<close>

theorem unsupported_element_counterexample:
  "map_option FullyImplemented (Unit_Contract (fst unsupported_element_build)) = Some False \<and>
   unsupported_element_outcomes = [NilChild] \<and>
   list_all claimed_keeps_flag unsupported_element_outcomes = True"
  by code_simp

text \<open>
  Claim C6, as the source has it: after \<^verbatim>\<open>Contract.Parse\<close> the flag is true exactly
  when no body element was empty, no body element parsed to a nil child, and every
  parsed function definition is implemented.
\<close>

theorem Contract_Parse_fully_implemented:
  "map_option FullyImplemented (Unit_Contract (fst (Contract_Parse P l unitCtx ctx rootNode unit)))
     = Some (list_all keeps_flag (Contract_Parse_outcomes P l unitCtx ctx rootNode unit))"
proof -
  obtain unit6 c3 l5 where h: "Contract_Parse_head P l unitCtx ctx rootNode unit = (unit6, c3, l5)"
    by (metis prod_cases3)
  obtain c4 l6 where b: "parse_body_elements P unit6 c3 l5 (AllContractBodyElement ctx) = (c4, l6)"
    by fastforce
  from Contract_Parse_head_fields [OF h] have "FullyImplemented c3" by simp
  with parse_body_elements_flag [OF b]
  have "FullyImplemented c4
        = list_all keeps_flag (body_outcomes P unit6 c3 l5 (AllContractBodyElement ctx))"
    by simp
  then show ?thesis
    by (simp add: Contract_Parse_def Contract_Parse_outcomes_def h b Let_def)
qed

theorem Contract_Parse_fully_implemented_witness:
  "map_option FullyImplemented (Unit_Contract (fst unsupported_element_build))
     = Some (list_all keeps_flag unsupported_element_outcomes) \<and>
   list_all keeps_flag unsupported_element_outcomes = False"
proof
  show "map_option FullyImplemented (Unit_Contract (fst unsupported_element_build))
     = Some (list_all keeps_flag unsupported_element_outcomes)"
    unfolding unsupported_element_build_def unsupported_element_outcomes_def
    by (rule Contract_Parse_fully_implemented)
next
  show "list_all keeps_flag unsupported_element_outcomes = False" by code_simp
qed

section \<open>Properties of the enum node\<close>





section \<open>Properties of the bit-xor node\<close>

text \<open>The loop appends one operand and its type description at a time.\<close>

lemma parse_operands_fields:
  "parse_operands pe f b xs = (f', b') \<Longrightarrow>
     length (Expressions f') = length (Expressions f) + length xs \<and>
     length (TypeDescriptions f') = length (TypeDescriptions f) + length xs \<and>
     (TypeDescriptions f = map Node_TypeDescription (Expressions f) \<longrightarrow>
        TypeDescriptions f' = map Node_TypeDescription (Expressions f'))"
proof (induction xs arbitrary: f b)
  case Nil
  then show ?case by simp
next
  case (Cons x xs)
  obtain p b1 where s: "pe b f x = (p, b1)" by fastforce
  define f1 where "f1 = f\<lparr>Expressions := Expressions f @ [p],
               TypeDescriptions := TypeDescriptions f @ [Node_TypeDescription p]\<rparr>"
  from Cons.prems s have "parse_operands pe f1 b1 xs = (f', b')" by (simp add: f1_def)
  from Cons.IH [OF this] show ?case by (simp add: f1_def)
qed

lemma BitXorOperation_Parse_fields:
  assumes "BitXorOperation_Parse pe b f contractNode fnNode bodyNode vDeclar expNode ctx
           = Inr (f', b')"
  shows "length (Expressions f') = length (Expressions f) + length (AllExpression ctx) \<and>
     length (TypeDescriptions f') = length (TypeDescriptions f) + length (AllExpression ctx) \<and>
     (TypeDescriptions f = map Node_TypeDescription (Expressions f) \<longrightarrow>
        TypeDescriptions f' = map Node_TypeDescription (Expressions f'))"
proof -
  obtain i b1 where g1: "GetNextID b = (i, b1)" by fastforce
  obtain srcId b2 where g2: "GetNextID b1 = (srcId, b2)" by fastforce
  from assms show ?thesis
    by (auto simp: BitXorOperation_Parse_def g1 g2 Let_def split: sum.splits
        dest!: parse_operands_fields)
qed

lemma NewBitXorOperationExpression_empty:
  "Expressions (fst (NewBitXorOperationExpression b)) = [] \<and>
   TypeDescriptions (fst (NewBitXorOperationExpression b)) = []"
  by (simp add: NewBitXorOperationExpression_def split: prod.splits)

text \<open>
  Claim C3, as stated: the type description of a binary-operation node with two operands
  or more is the result of the usual arithmetic conversions over its operands, the
  operand type of the larger bit width, not the type of one fixed operand. For
  \<^verbatim>\<open>a ^ b\<close> with a \<open>uint8\<close> and a \<open>uint256\<close> operand the source returns \<open>uint8\<close>; the
  conversions give \<open>uint256\<close>.
\<close>

theorem xor_type_description_counterexample:
  "(case xor_uint8_uint256 of
      Inl p \<Rightarrow> False
    | Inr (f, b) \<Rightarrow>
        GetTypeDescription f = Inr (Some t_uint8) \<and>
        spec_usual_arithmetic_conversions (TypeDescriptions f) = Some t_uint256) \<and>
   t_uint8 \<noteq> t_uint256"
  by code_simp

text \<open>
  Claim C3, as the source has it: the type description of a bit-xor node that was
  created by \<^verbatim>\<open>NewBitXorOperationExpression\<close> and parsed with one operand or more is
  the type description of its first operand, whatever the other operands are; the node
  holds one operand for each expression of the context.
\<close>

theorem BitXorOperation_type_is_first_operands:
  assumes "BitXorOperation_Parse pe b (fst (NewBitXorOperationExpression b0))
             contractNode fnNode bodyNode vDeclar expNode ctx = Inr (f', b')"
    and "AllExpression ctx \<noteq> []"
  shows "GetTypeDescription f' = Inr (Node_TypeDescription (Expressions f' ! 0)) \<and>
         length (Expressions f') = length (AllExpression ctx)"
proof -
  from BitXorOperation_Parse_fields [OF assms(1)] NewBitXorOperationExpression_empty [of b0]
  have len: "length (Expressions f') = length (AllExpression ctx)"
    and td: "TypeDescriptions f' = map Node_TypeDescription (Expressions f')"
    by simp_all
  from len assms(2) have "0 < length (Expressions f')" by simp
  then show ?thesis using len td by (simp add: GetTypeDescription_def)
qed

theorem BitXorOperation_type_is_first_operands_witness:
  "(case xor_uint8_uint256 of
      Inl p \<Rightarrow> False
    | Inr (f, b) \<Rightarrow>
        GetTypeDescription f = Inr (Node_TypeDescription (Expressions f ! 0)) \<and>
        length (Expressions f) = 2)"
proof -
  define ctx :: "TypeDescription BitXorOperationContext" where
    "ctx = \<lparr>xor_Start = scenario_token, xor_Stop = scenario_token,
             AllExpression = [t_uint8, t_uint256]\<rparr>"
  have ne: "AllExpression ctx \<noteq> []" and len: "length (AllExpression ctx) = 2"
    by (simp_all add: ctx_def)
  have "\<not> isl xor_uint8_uint256" by code_simp
  then have "xor_uint8_uint256 = Inr (projr xor_uint8_uint256)" by simp
  then obtain f b where r: "xor_uint8_uint256 = Inr (f, b)"
    by (cases "projr xor_uint8_uint256") simp
  obtain f0 b0 where n: "NewBitXorOperationExpression \<lparr>nextID = 10, currentEnums = []\<rparr> = (f0, b0)"
    by fastforce
  from r have "BitXorOperation_Parse typed_operand b0
                 (fst (NewBitXorOperationExpression \<lparr>nextID = 10, currentEnums = []\<rparr>))
                 (Some \<lparr>Node_Id = 3, Node_Type = CONTRACT_DEFINITION, Node_TypeDescription = None\<rparr>)
                 None None None None ctx = Inr (f, b)"
    by (simp add: xor_uint8_uint256_def n ctx_def)
  from BitXorOperation_type_is_first_operands [OF this ne] len
  show ?thesis unfolding r by simp
qed

text \<open>
  Claim C10. \<^verbatim>\<open>GetTypeDescription\<close> returns the first element of the node's
  \<^verbatim>\<open>TypeDescriptions\<close> when the list is not empty and panics with an index out of range
  when it is empty, as it is on a node fresh from \<^verbatim>\<open>NewBitXorOperationExpression\<close>;
  after \<^verbatim>\<open>Parse\<close> has parsed one operand or more the list is not empty.
\<close>

theorem GetTypeDescription_first_or_panic:
  "(TypeDescriptions f \<noteq> [] \<longrightarrow> GetTypeDescription f = Inr (hd (TypeDescriptions f))) \<and>
   (TypeDescriptions f = [] \<longrightarrow> GetTypeDescription f = Inl (IndexOutOfRange 0 0)) \<and>
   GetTypeDescription (fst (NewBitXorOperationExpression b)) = Inl (IndexOutOfRange 0 0) \<and>
   (BitXorOperation_Parse pe b1 f contractNode fnNode bodyNode vDeclar expNode ctx = Inr (f', b')
      \<and> AllExpression ctx \<noteq> [] \<longrightarrow> TypeDescriptions f' \<noteq> [])"
proof (intro conjI impI)
  assume "TypeDescriptions f \<noteq> []"
  then show "GetTypeDescription f = Inr (hd (TypeDescriptions f))"
    by (simp add: GetTypeDescription_def hd_conv_nth)
next
  assume "TypeDescriptions f = []"
  then show "GetTypeDescription f = Inl (IndexOutOfRange 0 0)"
    by (simp add: GetTypeDescription_def)
next
  show "GetTypeDescription (fst (NewBitXorOperationExpression b)) = Inl (IndexOutOfRange 0 0)"
    using NewBitXorOperationExpression_empty [of b] by (simp add: GetTypeDescription_def)
next
  assume a: "BitXorOperation_Parse pe b1 f contractNode fnNode bodyNode vDeclar expNode ctx
               = Inr (f', b') \<and> AllExpression ctx \<noteq> []"
  then have "length (TypeDescriptions f')
             = length (TypeDescriptions f) + length (AllExpression ctx)"
    using BitXorOperation_Parse_fields by blast
  with a show "TypeDescriptions f' \<noteq> []" by auto
qed

theorem GetTypeDescription_first_or_panic_witness:
  "(case xor_uint8_uint256 of
      Inl p \<Rightarrow> False
    | Inr (f, b) \<Rightarrow>
        TypeDescriptions f \<noteq> [] \<and> GetTypeDescription f = Inr (hd (TypeDescriptions f))) \<and>
   TypeDescriptions (fst (NewBitXorOperationExpression \<lparr>nextID = 10, currentEnums = []\<rparr>)) = [] \<and>
   GetTypeDescription (fst (NewBitXorOperationExpression \<lparr>nextID = 10, currentEnums = []\<rparr>))
     = Inl (IndexOutOfRange 0 0)"
proof -
  define ctx :: "TypeDescription BitXorOperationContext" where
    "ctx = \<lparr>xor_Start = scenario_token, xor_Stop = scenario_token,
             AllExpression = [t_uint8, t_uint256]\<rparr>"
  define b0 where "b0 = \<lparr>nextID = 10, currentEnums = []\<rparr>"
  have ne: "AllExpression ctx \<noteq> []" by (simp add: ctx_def)
  have "\<not> isl xor_uint8_uint256" by code_simp
  then have "xor_uint8_uint256 = Inr (projr xor_uint8_uint256)" by simp
  then obtain f b where r: "xor_uint8_uint256 = Inr (f, b)"
    by (cases "projr xor_uint8_uint256") simp
  have p: "BitXorOperation_Parse typed_operand (snd (NewBitXorOperationExpression b0))
             (fst (NewBitXorOperationExpression b0))
             (Some \<lparr>Node_Id = 3, Node_Type = CONTRACT_DEFINITION, Node_TypeDescription = None\<rparr>)
             None None None None ctx = Inr (f, b)"
    using r by (simp add: xor_uint8_uint256_def ctx_def b0_def split: prod.splits)
  have e: "TypeDescriptions (fst (NewBitXorOperationExpression b0)) = []"
    by (rule NewBitXorOperationExpression_empty [THEN conjunct2])
  from GetTypeDescription_first_or_panic
         [where f = "fst (NewBitXorOperationExpression b0)" and b = b0 and f' = f and b' = b
            and ctx = ctx and pe = typed_operand and ?b1.0 = "snd (NewBitXorOperationExpression b0)"]
       p ne
  have 1: "TypeDescriptions f \<noteq> []"
    and 2: "GetTypeDescription (fst (NewBitXorOperationExpression b0)) = Inl (IndexOutOfRange 0 0)"
    by blast+
  from GetTypeDescription_first_or_panic [where f = f] 1
  have 3: "GetTypeDescription f = Inr (hd (TypeDescriptions f))" by blast
  from 1 2 3 e show ?thesis unfolding r b0_def by simp
qed

section \<open>Properties of the verifier\<close>

text \<open>
  Claim C2, as stated: a bytecode whose hexadecimal encoding differs from the compiled
  bytecode gives a result with \<open>verified = false\<close> and no error. The byte \<open>60\<close>
  against the compiled bytecode \<open>6080\<close> gives that result together with an error.
\<close>

theorem Verify_mismatch_counterexample:
  "EncodeToString [0x60] \<noteq> ''6080'' \<and>
   Compile example_verifier = Inr \<lparr>Bytecode = ''6080''\<rparr> \<and>
   map_option Verified (fst (Verify example_verifier [0x60])) = Some False \<and>
   snd (Verify example_verifier [0x60]) \<noteq> None"
  by code_simp

text \<open>
  Claim C2, as the source has it. When the compiler fails, \<^verbatim>\<open>Verify\<close> returns no
  result and the compiler's error. When it succeeds, \<^verbatim>\<open>Verify\<close> returns a result
  whose \<open>verified\<close> is true exactly when the hexadecimal encoding of the bytecode
  equals the compiled bytecode, and an error exactly when they differ: a mismatch is
  returned as data (the result carries the diff) and as the error "bytecode missmatch,
  failed to verify" as well.
\<close>

theorem Verify_results:
  "(Compile v = Inl err \<longrightarrow> Verify v bytecode = (None, Some err)) \<and>
   (Compile v = Inr results \<longrightarrow>
      map_option Verified (fst (Verify v bytecode))
        = Some (EncodeToString bytecode = Bytecode results) \<and>
      map_option ExpectedBytecode (fst (Verify v bytecode)) = Some (EncodeToString bytecode) \<and>
      (snd (Verify v bytecode) = None) = (EncodeToString bytecode = Bytecode results)) \<and>
   (Compile v = Inr results \<and> EncodeToString bytecode \<noteq> Bytecode results \<longrightarrow>
      map_option Diffs (fst (Verify v bytecode))
        = Some (DiffMain v (EncodeToString bytecode) (Bytecode results) False) \<and>
      snd (Verify v bytecode) = Some ''bytecode missmatch, failed to verify'') \<and>
   (Compile v = Inr results \<and> EncodeToString bytecode = Bytecode results \<longrightarrow>
      map_option Diffs (fst (Verify v bytecode)) = Some [])"
  by (simp add: Verify_def Let_def)

theorem Verify_results_witness:
  "Verify (example_verifier\<lparr>Compile := Inl ''compiler failed''\<rparr>) [0x60]
     = (None, Some ''compiler failed'') \<and>
   map_option Verified (fst (Verify example_verifier [0x60, 0x80])) = Some True \<and>
   snd (Verify example_verifier [0x60, 0x80]) = None \<and>
   map_option Diffs (fst (Verify example_verifier [0x60, 0x80])) = Some [] \<and>
   map_option Verified (fst (Verify example_verifier [0x60])) = Some False \<and>
   map_option Diffs (fst (Verify example_verifier [0x60])) = Some [(- 1, ''60''), (1, ''6080'')] \<and>
   snd (Verify example_verifier [0x60]) = Some ''bytecode missmatch, failed to verify''"
proof -
  have c: "Compile example_verifier = Inr \<lparr>Bytecode = ''6080''\<rparr>"
    and d: "DiffMain example_verifier = replace_diff"
    and f: "Compile (example_verifier\<lparr>Compile := Inl ''compiler failed''\<rparr>) = Inl ''compiler failed''"
    by (simp_all add: example_verifier_def)
  have e1: "EncodeToString [0x60] = ''60''" and e2: "EncodeToString [0x60, 0x80] = ''6080''"
    by code_simp+
  from Verify_results [where v = "example_verifier\<lparr>Compile := Inl ''compiler failed''\<rparr>"
                          and err = "''compiler failed''" and bytecode = "[0x60]"] f
  have 1: "Verify (example_verifier\<lparr>Compile := Inl ''compiler failed''\<rparr>) [0x60]
             = (None, Some ''compiler failed'')" by blast
  from Verify_results [where v = example_verifier and results = "\<lparr>Bytecode = ''6080''\<rparr>"
                          and bytecode = "[0x60, 0x80]"] c e2
  have 2: "map_option Verified (fst (Verify example_verifier [0x60, 0x80])) = Some True"
    and 3: "snd (Verify example_verifier [0x60, 0x80]) = None"
    and 4: "map_option Diffs (fst (Verify example_verifier [0x60, 0x80])) = Some []"
    by simp_all
  from Verify_results [where v = example_verifier and results = "\<lparr>Bytecode = ''6080''\<rparr>"
                          and bytecode = "[0x60]"] c e1 d
  have 5: "map_option Verified (fst (Verify example_verifier [0x60])) = Some False"
    and 6: "map_option Diffs (fst (Verify example_verifier [0x60]))
              = Some [(- 1, ''60''), (1, ''6080'')]"
    and 7: "snd (Verify example_verifier [0x60]) = Some ''bytecode missmatch, failed to verify''"
    by (simp_all add: replace_diff_def)
  from 1 2 3 4 5 6 7 show ?thesis by blast
qed

section \<open>Properties of ir/root.go\<close>

lemma HasContractType_loop_set: "HasContractType_loop ts c = (c \<in> set ts)"
  by (induction ts) auto

lemma set_first_occurrences: "set (first_occurrences xs) = set xs"
  by (induction xs) auto

lemma distinct_first_occurrences: "distinct (first_occurrences xs)"
  by (induction xs) (auto simp: set_first_occurrences)

lemma first_occurrences_snoc:
  "first_occurrences (xs @ [c]) =
     (if c \<in> set xs then first_occurrences xs else first_occurrences xs @ [c])"
  by (induction xs) (auto simp: set_first_occurrences)

lemma appendContractType_first_occurrences:
  assumes "ContractTypes r = first_occurrences as"
  shows "ContractTypes (appendContractType r c) = first_occurrences (as @ [c])"
  using assms
  by (simp add: appendContractType_def HasContractType_def HasContractType_loop_set
      first_occurrences_snoc set_first_occurrences)

lemma SetContractType_first_occurrences:
  assumes "ContractTypes r = first_occurrences as"
  shows "ContractTypes (SetContractType r s) = first_occurrences (as @ requested_types s)"
proof (cases s)
  case EIP1967
  have "ContractTypes (appendContractType (appendContractType r ''proxy'') ''upgradeable'')
        = first_occurrences ((as @ [''proxy'']) @ [''upgradeable''])"
    by (intro appendContractType_first_occurrences assms)
  with EIP1967 show ?thesis by simp
next
  case EIP1820
  have "ContractTypes (appendContractType (appendContractType r ''proxy'') ''upgradeable'')
        = first_occurrences ((as @ [''proxy'']) @ [''upgradeable''])"
    by (intro appendContractType_first_occurrences assms)
  with EIP1820 show ?thesis by simp
qed (use assms in \<open>simp_all add: appendContractType_first_occurrences\<close>)

lemma foldl_SetContractType_first_occurrences:
  assumes "ContractTypes r = first_occurrences as"
  shows "ContractTypes (foldl SetContractType r stds)
         = first_occurrences (as @ concat (map requested_types stds))"
  using assms
proof (induction stds arbitrary: r as)
  case Nil
  then show ?case by simp
next
  case (Cons s stds)
  from SetContractType_first_occurrences [OF Cons.prems, of s]
  have "ContractTypes (foldl SetContractType (SetContractType r s) stds)
        = first_occurrences ((as @ requested_types s) @ concat (map requested_types stds))"
    by (rule Cons.IH)
  then show ?case by simp
qed

text \<open>
  Claim C9. Whatever sequence of standards \<^verbatim>\<open>SetContractType\<close> is called with on a root
  whose \<^verbatim>\<open>ContractTypes\<close> list is empty (as \<^verbatim>\<open>processRoot\<close> creates it), the resulting
  list has no duplicates, and it is the list of requested types ("token" for ERC-20, "nft"
  for ERC-721 and ERC-1155, "proxy" then "upgradeable" for ERC-1967 and ERC-1820) with
  every type at the place of its first insertion.
\<close>

theorem SetContractType_dedup_insertion_order:
  "distinct (ContractTypes (foldl SetContractType (r\<lparr>ContractTypes := []\<rparr>) stds)) \<and>
   ContractTypes (foldl SetContractType (r\<lparr>ContractTypes := []\<rparr>) stds)
     = first_occurrences (concat (map requested_types stds))"
proof -
  have "ContractTypes (r\<lparr>ContractTypes := []\<rparr>) = first_occurrences []" by simp
  from foldl_SetContractType_first_occurrences [OF this, of stds]
  show ?thesis by (simp add: distinct_first_occurrences)
qed

end
